theory Spec2Isabelle
  imports Main "HOL-Library.Word" "HOL-Library.Signed_Division"
begin

section \<open>Dynamic configuration: common/dynamicconfig/collection.go\<close>

subsection \<open>Go values\<close>

text \<open>
  A value of Go's \<^verbatim>\<open>any\<close> carries its dynamic type. The constructors below are the
  dynamic types that the type switches of collection.go tell apart; \<open>GoOther\<close> stands
  for every other dynamic type (slices, structs, named integer types, ...) and carries
  only a type name. \<^verbatim>\<open>int\<close>, \<^verbatim>\<open>uint\<close> and \<^verbatim>\<open>uintptr\<close> are 64 bits wide (a 64-bit
  platform), \<^verbatim>\<open>time.Duration\<close> is an \<^verbatim>\<open>int64\<close> count of nanoseconds. Floating-point
  values are kept as their IEEE 754 bit patterns; their arithmetic is a parameter
  (\<open>float_ops\<close> below). A map value is \<open>None\<close> for the nil map.
\<close>

datatype go_any =
    GoNil
  | GoBool bool
  | GoInt "64 word"
  | GoInt8 "8 word"
  | GoInt16 "16 word"
  | GoInt32 "32 word"
  | GoInt64 "64 word"
  | GoUint "64 word"
  | GoUint8 "8 word"
  | GoUint16 "16 word"
  | GoUint32 "32 word"
  | GoUint64 "64 word"
  | GoUintptr "64 word"
  | GoFloat32 "32 word"
  | GoFloat64 "64 word"
  | GoString string
  | GoDuration "64 word"
  | GoMap "(string \<times> go_any) list option"
  | GoOther string

text \<open>
  Go's \<^verbatim>\<open>error\<close> values: the two package-level sentinels, \<^verbatim>\<open>errors.New\<close>,
  \<^verbatim>\<open>fmt.Errorf\<close> wrapping another error's text, and the syntax error of
  \<^verbatim>\<open>strconv\<close> (function name and offending input). A Go result \<^verbatim>\<open>(T, error)\<close> is a
  pair whose second component is \<open>None\<close> for \<^verbatim>\<open>nil\<close>.
\<close>

datatype error =
    errKeyNotPresent
  | errNoMatchingConstraint
  | New string
  | Errorf string error
  | syntaxError string string

record 'c ConstrainedValue =
  Constraints :: 'c
  Value :: go_any

record ('c, 't) TypedConstrainedValue =
  TConstraints :: 'c
  TValue :: 't

datatype 'k log_line =
    Debug string 'k error
  | Warn string 'k go_any error

text \<open>
  The collection: the client (its \<^verbatim>\<open>GetValue\<close>, as a function of the key), what has
  been written to the logger so far, and the error counter. The types \<^verbatim>\<open>Key\<close> and
  \<^verbatim>\<open>Constraints\<close> are declared outside collection.go; they are the type parameters
  \<open>'k\<close> and \<open>'c\<close>, and \<^verbatim>\<open>==\<close> on \<^verbatim>\<open>Constraints\<close> is equality.
\<close>

record ('k, 'c) Collection =
  client :: "'k \<Rightarrow> 'c ConstrainedValue list"
  logger :: "'k log_line list"
  errCount :: "64 word"

definition NewCollection :: "('k \<Rightarrow> 'c ConstrainedValue list) \<Rightarrow> ('k, 'c) Collection" where
  "NewCollection cl = \<lparr>client = cl, logger = [], errCount = - 1\<rparr>"

definition HasKey :: "('k, 'c) Collection \<Rightarrow> 'k \<Rightarrow> bool" where
  "HasKey c key = (length (client c key) > 0)"

definition errCountLogThreshold :: int where
  "errCountLogThreshold = 1000"

definition throttleLog :: "('k, 'c) Collection \<Rightarrow> bool \<times> ('k, 'c) Collection" where
  "throttleLog c =
     (let n = errCount c + 1
      in (sint n < errCountLogThreshold \<or> sint n smod errCountLogThreshold = 0,
          c\<lparr>errCount := n\<rparr>))"

subsection \<open>findMatch\<close>

text \<open>The two inner loops of findMatch, over the client's values and over the typed
  defaults; \<open>box\<close> is the implicit conversion of a \<^verbatim>\<open>T\<close> to \<^verbatim>\<open>any\<close>.\<close>

fun match_cvs :: "'c \<Rightarrow> 'c ConstrainedValue list \<Rightarrow> go_any option" where
  "match_cvs m [] = None"
| "match_cvs m (cv # cvs) = (if m = Constraints cv then Some (Value cv) else match_cvs m cvs)"

fun match_defaultCVs ::
  "('t \<Rightarrow> go_any) \<Rightarrow> 'c \<Rightarrow> ('c, 't) TypedConstrainedValue list \<Rightarrow> go_any option" where
  "match_defaultCVs box m [] = None"
| "match_defaultCVs box m (cv # cvs) =
     (if m = TConstraints cv then Some (box (TValue cv)) else match_defaultCVs box m cvs)"

text \<open>The outer loop over the precedence list.\<close>

fun match_precedence ::
  "('t \<Rightarrow> go_any) \<Rightarrow> 'c ConstrainedValue list \<Rightarrow> ('c, 't) TypedConstrainedValue list \<Rightarrow>
   'c list \<Rightarrow> go_any \<times> error option" where
  "match_precedence box cvs defaultCVs [] = (GoNil, Some errNoMatchingConstraint)"
| "match_precedence box cvs defaultCVs (m # ms) =
     (case match_cvs m cvs of
        Some v \<Rightarrow> (v, None)
      | None \<Rightarrow>
         (case match_defaultCVs box m defaultCVs of
            Some v \<Rightarrow> (v, None)
          | None \<Rightarrow> match_precedence box cvs defaultCVs ms))"

definition findMatch ::
  "('t \<Rightarrow> go_any) \<Rightarrow> 'c ConstrainedValue list \<Rightarrow> ('c, 't) TypedConstrainedValue list \<Rightarrow>
   'c list \<Rightarrow> go_any \<times> error option" where
  "findMatch box cvs defaultCVs precedence =
     (if length cvs + length defaultCVs = 0 then (GoNil, Some errKeyNotPresent)
      else match_precedence box cvs defaultCVs precedence)"

subsection \<open>matchAndConvert\<close>

text \<open>
  \<open>zeroConstraints\<close> is the zero value of \<^verbatim>\<open>Constraints\<close> (the composite literal
  \<^verbatim>\<open>{Value: def}\<close> leaves the field at it). \<open>cdef\<close> is \<open>None\<close> for a nil slice,
  which is the only slice that \<^verbatim>\<open>== nil\<close> accepts. The function returns the typed value
  and the collection with its counter and log advanced.
\<close>

definition logThrottled :: "'k log_line \<Rightarrow> ('k, 'c) Collection \<Rightarrow> ('k, 'c) Collection" where
  "logThrottled l c =
     (case throttleLog c of
        (True, c') \<Rightarrow> c'\<lparr>logger := logger c' @ [l]\<rparr>
      | (False, c') \<Rightarrow> c')"

definition matchAndConvert ::
  "'c \<Rightarrow> ('t \<Rightarrow> go_any) \<Rightarrow> ('k, 'c) Collection \<Rightarrow> 'k \<Rightarrow> 't \<Rightarrow>
   ('c, 't) TypedConstrainedValue list option \<Rightarrow> (go_any \<Rightarrow> 't \<times> error option) \<Rightarrow> 'c list \<Rightarrow>
   't \<times> ('k, 'c) Collection" where
  "matchAndConvert zeroConstraints box c key def cdef convert precedence =
     (let cvs = client c key;
          defaultCVs = (case cdef of
                          None \<Rightarrow> [\<lparr>TConstraints = zeroConstraints, TValue = def\<rparr>]
                        | Some d \<Rightarrow> d);
          (val0, matchErr) = findMatch box cvs defaultCVs precedence;
          (val, c1) = (case matchErr of
                         Some e \<Rightarrow>
                           (box def,
                            logThrottled
                              (Debug ''No such key in dynamic config, using default'' key e) c)
                       | None \<Rightarrow> (val0, c));
          (typedVal0, convertErr0) = convert val;
          ((typedVal, convertErr), c2) =
             (case convertErr0 of
                Some e \<Rightarrow>
                  (if matchErr = None
                   then (convert (box def),
                         logThrottled (Warn ''Failed to convert value, using default'' key val e) c1)
                   else ((typedVal0, convertErr0), c1))
              | None \<Rightarrow> ((typedVal0, convertErr0), c1));
          c3 = (case convertErr of
                  Some e \<Rightarrow>
                    c2\<lparr>logger := logger c2 @
                      [Warn ''Can't convert default value (this is a bug; fix server code)''
                         key (box def) e]\<rparr>
                | None \<Rightarrow> c2)
      in (typedVal, c3))"

subsection \<open>The conversion functions\<close>

definition convertInt :: "go_any \<Rightarrow> 64 word \<times> error option" where
  "convertInt val =
     (case val of
        GoInt v \<Rightarrow> (v, None)
      | GoInt8 v \<Rightarrow> (scast v, None)
      | GoInt16 v \<Rightarrow> (scast v, None)
      | GoInt32 v \<Rightarrow> (scast v, None)
      | GoInt64 v \<Rightarrow> (v, None)
      | GoUint v \<Rightarrow> (v, None)
      | GoUint8 v \<Rightarrow> (ucast v, None)
      | GoUint16 v \<Rightarrow> (ucast v, None)
      | GoUint32 v \<Rightarrow> (ucast v, None)
      | GoUint64 v \<Rightarrow> (v, None)
      | GoUintptr v \<Rightarrow> (v, None)
      | _ \<Rightarrow> (0, Some (New ''value type is not int'')))"

text \<open>
  Floating point: the four operations the file uses, on bit patterns.
  \<open>widen\<close> is \<^verbatim>\<open>float64(x)\<close> for a \<^verbatim>\<open>float32\<close>, \<open>of_int64\<close> is \<^verbatim>\<open>float64(i)\<close> for an
  integer, \<open>fmul\<close> is the product of two \<^verbatim>\<open>float64\<close> and \<open>to_int64\<close> the conversion
  of a \<^verbatim>\<open>float64\<close> to \<^verbatim>\<open>int64\<close>. The constant \<^verbatim>\<open>0\<close> of type \<^verbatim>\<open>float64\<close> is the bit
  pattern 0.
\<close>

record float_ops =
  widen :: "32 word \<Rightarrow> 64 word"
  of_int64 :: "64 word \<Rightarrow> 64 word"
  fmul :: "64 word \<Rightarrow> 64 word \<Rightarrow> 64 word"
  to_int64 :: "64 word \<Rightarrow> 64 word"

definition convertFloat :: "float_ops \<Rightarrow> go_any \<Rightarrow> 64 word \<times> error option" where
  "convertFloat fo val =
     (case val of
        GoFloat32 v \<Rightarrow> (widen fo v, None)
      | GoFloat64 v \<Rightarrow> (v, None)
      | _ \<Rightarrow>
         (case convertInt val of
            (ival, None) \<Rightarrow> (of_int64 fo ival, None)
          | (ival, Some e) \<Rightarrow> (0, Some (New ''value type is not float64''))))"

definition Second :: "64 word" where
  "Second = 1000000000"

text \<open>
  \<open>parse\<close> is \<^verbatim>\<open>timestamp.ParseDurationDefaultSeconds\<close>, a function of another package,
  taken as a parameter.
\<close>

definition convertDuration ::
  "(string \<Rightarrow> 64 word \<times> error option) \<Rightarrow> float_ops \<Rightarrow> go_any \<Rightarrow> 64 word \<times> error option" where
  "convertDuration parse fo val =
     (case val of
        GoDuration v \<Rightarrow> (v, None)
      | GoString v \<Rightarrow>
         (case parse v of
            (d, Some err) \<Rightarrow> (0, Some (Errorf ''failed to parse duration: '' err))
          | (d, None) \<Rightarrow> (d, None))
      | _ \<Rightarrow>
         (case convertInt val of
            (ival, None) \<Rightarrow> (ival * Second, None)
          | (ival, Some e) \<Rightarrow>
             (case convertFloat fo val of
                (fval, None) \<Rightarrow> (to_int64 fo (fmul fo fval (of_int64 fo Second)), None)
              | (fval, Some e') \<Rightarrow> (0, Some (New ''value not convertible to Duration'')))))"

definition convertString :: "go_any \<Rightarrow> string \<times> error option" where
  "convertString val =
     (case val of
        GoString stringVal \<Rightarrow> (stringVal, None)
      | _ \<Rightarrow> ('''', Some (New ''value type is not string'')))"

text \<open>\<^verbatim>\<open>strconv.ParseBool\<close> of the Go standard library.\<close>

definition ParseBool :: "string \<Rightarrow> bool \<times> error option" where
  "ParseBool str =
     (if str \<in> set [''1'', ''t'', ''T'', ''true'', ''TRUE'', ''True''] then (True, None)
      else if str \<in> set [''0'', ''f'', ''F'', ''false'', ''FALSE'', ''False''] then (False, None)
      else (False, Some (syntaxError ''ParseBool'' str)))"

definition convertBool :: "go_any \<Rightarrow> bool \<times> error option" where
  "convertBool val =
     (case val of
        GoBool v \<Rightarrow> (v, None)
      | GoString v \<Rightarrow> ParseBool v
      | _ \<Rightarrow> (False, Some (New ''value type is not bool'')))"

definition convertMap :: "go_any \<Rightarrow> (string \<times> go_any) list option \<times> error option" where
  "convertMap val =
     (case val of
        GoMap mapVal \<Rightarrow> (mapVal, None)
      | _ \<Rightarrow> (None, Some (New ''value type is not map'')))"

subsection \<open>Notions used to state the properties of the lookup and the conversions\<close>

text \<open>
  The lookup as the specification words it: every candidate value (the client's values
  first, then the typed defaults, each with its constraints), every pair of a precedence
  entry and a candidate in precedence-major order, and the value of the first pair whose
  two constraints are equal.
\<close>

definition candidates ::
  "('t \<Rightarrow> go_any) \<Rightarrow> 'c ConstrainedValue list \<Rightarrow> ('c, 't) TypedConstrainedValue list \<Rightarrow>
   ('c \<times> go_any) list" where
  "candidates box cvs defaultCVs =
     map (\<lambda>cv. (Constraints cv, Value cv)) cvs @
     map (\<lambda>cv. (TConstraints cv, box (TValue cv))) defaultCVs"

definition firstMatch ::
  "('t \<Rightarrow> go_any) \<Rightarrow> 'c ConstrainedValue list \<Rightarrow> ('c, 't) TypedConstrainedValue list \<Rightarrow>
   'c list \<Rightarrow> go_any option" where
  "firstMatch box cvs defaultCVs precedence =
     map_option (\<lambda>(m, c, v). v)
       (List.find (\<lambda>(m, c, v). m = c) (List.product precedence (candidates box cvs defaultCVs)))"

text \<open>The default list that matchAndConvert hands to findMatch.\<close>

definition defaultCVsOf ::
  "'c \<Rightarrow> 't \<Rightarrow> ('c, 't) TypedConstrainedValue list option \<Rightarrow> ('c, 't) TypedConstrainedValue list" where
  "defaultCVsOf zeroConstraints def cdef =
     (case cdef of None \<Rightarrow> [\<lparr>TConstraints = zeroConstraints, TValue = def\<rparr>] | Some d \<Rightarrow> d)"

text \<open>
  The dynamic types that are Go integer types, the mathematical value of such a value
  (signed types read as two's complement, unsigned ones as naturals), and the two
  floating-point types.
\<close>

fun isGoInteger :: "go_any \<Rightarrow> bool" where
  "isGoInteger (GoInt v) = True"
| "isGoInteger (GoInt8 v) = True"
| "isGoInteger (GoInt16 v) = True"
| "isGoInteger (GoInt32 v) = True"
| "isGoInteger (GoInt64 v) = True"
| "isGoInteger (GoUint v) = True"
| "isGoInteger (GoUint8 v) = True"
| "isGoInteger (GoUint16 v) = True"
| "isGoInteger (GoUint32 v) = True"
| "isGoInteger (GoUint64 v) = True"
| "isGoInteger (GoUintptr v) = True"
| "isGoInteger _ = False"

fun integerValue :: "go_any \<Rightarrow> int" where
  "integerValue (GoInt v) = sint v"
| "integerValue (GoInt8 v) = sint v"
| "integerValue (GoInt16 v) = sint v"
| "integerValue (GoInt32 v) = sint v"
| "integerValue (GoInt64 v) = sint v"
| "integerValue (GoUint v) = uint v"
| "integerValue (GoUint8 v) = uint v"
| "integerValue (GoUint16 v) = uint v"
| "integerValue (GoUint32 v) = uint v"
| "integerValue (GoUint64 v) = uint v"
| "integerValue (GoUintptr v) = uint v"
| "integerValue _ = 0"

fun isGoFloat :: "go_any \<Rightarrow> bool" where
  "isGoFloat (GoFloat32 v) = True"
| "isGoFloat (GoFloat64 v) = True"
| "isGoFloat _ = False"

text \<open>The strings that \<^verbatim>\<open>strconv.ParseBool\<close> accepts.\<close>

definition parseBoolAccepts :: "string list" where
  "parseBoolAccepts =
     [''1'', ''t'', ''T'', ''true'', ''TRUE'', ''True'',
      ''0'', ''f'', ''F'', ''false'', ''FALSE'', ''False'']"

text \<open>Concrete inputs on which the theorems below are instantiated.\<close>

definition sampleFloatOps :: float_ops where
  "sampleFloatOps = \<lparr>widen = ucast, of_int64 = id, fmul = (\<lambda>a b. a + b), to_int64 = id\<rparr>"

definition sampleCollection :: "(string, nat) Collection" where
  "sampleCollection =
     NewCollection
       (\<lambda>k. if k = ''limit''
            then [\<lparr>Constraints = 1, Value = GoString ''ten''\<rparr>,
                  \<lparr>Constraints = 0, Value = GoInt32 5\<rparr>]
            else [])"

section \<open>Shard ownership and sequencing: the Context interface\<close>

text \<open>
  The sources declare the interfaces \<^verbatim>\<open>Context\<close> and \<^verbatim>\<open>ControllableContext\<close> of package
  shard: the method names and their parameter and result types. Their implementation is
  not part of the sources. The result types are taken from the interface
  (\<^verbatim>\<open>GenerateTaskID() (int64, error)\<close>, \<^verbatim>\<open>GenerateTaskIDs(number int) ([]int64, error)\<close>,
  \<^verbatim>\<open>SetQueueState(...) error\<close>, \<^verbatim>\<open>UpdateReplicatorDLQAckLevel(...) error\<close>,
  \<^verbatim>\<open>UpdateRemoteReaderInfo(...) error\<close>, and no result for
  \<^verbatim>\<open>UpdateRemoteClusterInfo\<close>, \<^verbatim>\<open>UnloadForOwnershipLost\<close> and \<^verbatim>\<open>FinishStop\<close>); what the
  methods do is modelled from the specification, sections 3 to 8. Task IDs and range IDs
  are \<^verbatim>\<open>int64\<close>: they are integers whose arithmetic is reduced into the range from
  \<open>- 2 ^ 63\<close> to \<open>2 ^ 63 - 1\<close>, as Go's is. Acknowledgement levels, watermarks and
  timestamps are only ever compared.
\<close>

subsection \<open>Machine integers\<close>

text \<open>The value of an \<^verbatim>\<open>int64\<close> computation whose mathematical result is \<open>x\<close>: Go's signed
  arithmetic wraps around.\<close>

definition int64 :: "int \<Rightarrow> int" where
  "int64 x = (x + 2 ^ 63) mod 2 ^ 64 - 2 ^ 63"

subsection \<open>Data model\<close>

text \<open>Modelled from the spec: the error taxonomy of section 7 (the error values of the
  missing implementation).\<close>

datatype shard_error = OwnershipLost | NotFound | Transient | InvalidArgument

text \<open>Modelled from the spec: the states of the facade, section 4.6 (the state field of
  the missing implementation).\<close>

datatype context_state = Initializing | Active | Invalid | Stopped

text \<open>Modelled from the spec: a reader's part of a queue state, section 3: its
  acknowledged watermark key and the sparse completed ranges (the persisted queue-state
  message is not in the sources). Keys are integers.\<close>

record reader_state =
  ackWatermark :: int
  completedRanges :: "(int \<times> int) list"

text \<open>Modelled from the spec: the queue state of a task category, section 3: the
  exclusive high watermark and the state of each reader, by reader ID (the first entry
  of a reader is the one that counts).\<close>

record queue_state =
  exclusiveHighWatermark :: int
  readerStates :: "(int \<times> reader_state) list"

text \<open>Modelled from the spec: what SetQueueState does with a watermark lower than the
  persisted one, section 8: it is rejected or it is a no-op; which of the two is the
  policy the Context was built with.\<close>

datatype watermark_policy = RejectLower | IgnoreLower

text \<open>Modelled from the spec: the shard record of the storage engine boundary,
  section 6, without the hand-over namespaces (no operation modelled here touches
  them). The replication state is the dead-letter-queue acknowledgement level of each
  cluster and the acknowledged task ID and timestamp of each reader.\<close>

record shard_record =
  rec_shardID :: int
  rec_owner :: string
  rec_rangeID :: int
  rec_queueStates :: "nat \<rightharpoonup> queue_state"
  rec_dlqAckLevel :: "string \<rightharpoonup> int"
  rec_readerInfo :: "int \<rightharpoonup> int \<times> int"

text \<open>Modelled from the spec: the storage engine, section 6, as far as the core sees
  it: the persisted shard record, and whether the engine can be reached (an unreachable
  engine fails every write with a Transient error, section 7).\<close>

record storage =
  shard :: shard_record
  available :: bool

text \<open>Modelled from the spec: the attributes of a shard held in memory by its Context,
  section 3: the state of section 4.6, shard ID, owner, current range ID, the range size,
  the in-memory cursor of section 4.2 (the next task ID), the policy for lower
  watermarks, the cached queue states and the replication state.\<close>

record shard_context =
  state :: context_state
  shardID :: int
  owner :: string
  rangeID :: int
  rangeSize :: int
  cursor :: int
  lowerWatermarkPolicy :: watermark_policy
  queueStates :: "nat \<rightharpoonup> queue_state"
  remoteClusterInfo :: "string \<rightharpoonup> int \<times> int"
  dlqAckLevel :: "string \<rightharpoonup> int"
  remoteReaderInfo :: "int \<rightharpoonup> int \<times> int"

text \<open>Modelled from the spec: a Context together with the storage engine it writes to.\<close>

record world =
  ctx :: shard_context
  store :: storage

subsection \<open>Fencing and the range allocator\<close>

text \<open>Modelled from the spec: the conditional write of sections 3 and 6. The storage
  engine accepts a write only when the caller's range ID matches the persisted value; a
  rejected write is the OwnershipLost condition, an unreachable engine a Transient
  failure that leaves the record as it is.\<close>

definition fencedWrite ::
  "int \<Rightarrow> (shard_record \<Rightarrow> shard_record) \<Rightarrow> storage \<Rightarrow> shard_error + storage" where
  "fencedWrite callerRangeID update st =
     (if \<not> available st then Inl Transient
      else if rec_rangeID (shard st) \<noteq> callerRangeID then Inl OwnershipLost
      else Inr (st\<lparr>shard := update (shard st)\<rparr>))"

text \<open>Modelled from the spec: the fail-fast check of sections 4.6 and 7: a call on an
  Invalid or Stopped Context fails with OwnershipLost before any I/O. The spec names no
  error for a call on an Initializing Context (only setup calls are allowed there); the
  model answers Transient, the kind that may be retried.\<close>

definition errorByState :: "shard_context \<Rightarrow> shard_error option" where
  "errorByState c =
     (case state c of
        Active \<Rightarrow> None
      | Invalid \<Rightarrow> Some OwnershipLost
      | Stopped \<Rightarrow> Some OwnershipLost
      | Initializing \<Rightarrow> Some Transient)"

text \<open>Modelled from the spec: AcquireOrRenew of section 4.1. The new range ID is the
  one read plus one, written by a conditional update that succeeds only if the persisted
  value is unchanged since the read. On success the in-memory range ID becomes the new
  one and the cursor restarts at the start of the new block,
  \<open>rangeID * rangeSize\<close> (section 3). Every failure of acquisition or renewal flips the
  Context to Invalid (section 7).\<close>

definition AcquireOrRenew :: "world \<Rightarrow> (shard_error + int) \<times> world" where
  "AcquireOrRenew w =
     (let c = ctx w; newRangeID = int64 (rangeID c + 1) in
      case fencedWrite (rangeID c)
             (\<lambda>r. r\<lparr>rec_rangeID := newRangeID, rec_owner := owner c\<rparr>) (store w) of
        Inl e \<Rightarrow> (Inl e, w\<lparr>ctx := c\<lparr>state := Invalid\<rparr>\<rparr>)
      | Inr st \<Rightarrow>
          (Inr newRangeID,
           \<lparr>ctx = c\<lparr>state := Active, rangeID := newRangeID,
                     cursor := int64 (newRangeID * rangeSize c)\<rparr>,
            store = st\<rparr>))"

text \<open>Modelled from the spec: the creation of a Context, section 3 (Lifecycle): the
  controller reads the persisted record; the Context starts in the state Initializing
  with the range ID it read.\<close>

definition newContext ::
  "int \<Rightarrow> string \<Rightarrow> int \<Rightarrow> watermark_policy \<Rightarrow> storage \<Rightarrow> shard_context" where
  "newContext sid own rsize policy st =
     \<lparr>state = Initializing, shardID = sid, owner = own,
      rangeID = rec_rangeID (shard st), rangeSize = rsize,
      cursor = int64 (rec_rangeID (shard st) * rsize),
      lowerWatermarkPolicy = policy,
      queueStates = rec_queueStates (shard st),
      remoteClusterInfo = Map.empty,
      dlqAckLevel = rec_dlqAckLevel (shard st),
      remoteReaderInfo = rec_readerInfo (shard st)\<rparr>"

text \<open>Modelled from the spec: lease acquisition, section 3 (Lifecycle): read the
  persisted range ID, increment it, persist the increment.\<close>

definition acquireShard ::
  "int \<Rightarrow> string \<Rightarrow> int \<Rightarrow> watermark_policy \<Rightarrow> storage \<Rightarrow> (shard_error + int) \<times> world" where
  "acquireShard sid own rsize policy st =
     AcquireOrRenew \<lparr>ctx = newContext sid own rsize policy st, store = st\<rparr>"

text \<open>Modelled from the spec: what a competing acquisition by another owner does to
  the storage engine, sections 3 and 8: the persisted range ID is incremented.\<close>

definition competingAcquire :: "string \<Rightarrow> storage \<Rightarrow> storage" where
  "competingAcquire other st =
     st\<lparr>shard := (shard st)\<lparr>rec_rangeID := int64 (rec_rangeID (shard st) + 1),
                             rec_owner := other\<rparr>\<rparr>"

subsection \<open>Task-ID generator\<close>

text \<open>Modelled from the spec: GenerateTaskID of section 4.2. The cursor stays within
  the owned block \<open>[rangeID * rangeSize, rangeID * rangeSize + rangeSize)\<close>; the call
  returns the cursor and advances it; when the cursor has reached the top of the block
  the allocator is invoked first and generation resumes from the start of the new block.
  Within the block the call is in-memory \<^verbatim>\<open>int64\<close> arithmetic, with no I/O.\<close>

definition GenerateTaskID :: "world \<Rightarrow> (shard_error + int) \<times> world" where
  "GenerateTaskID w =
     (case errorByState (ctx w) of
        Some e \<Rightarrow> (Inl e, w)
      | None \<Rightarrow>
          (if cursor (ctx w) <
                int64 (int64 (rangeID (ctx w) * rangeSize (ctx w)) + rangeSize (ctx w))
           then (Inr (cursor (ctx w)),
                 w\<lparr>ctx := (ctx w)\<lparr>cursor := int64 (cursor (ctx w) + 1)\<rparr>\<rparr>)
           else
             (case AcquireOrRenew w of
                (Inl e, w') \<Rightarrow> (Inl e, w')
              | (Inr r, w') \<Rightarrow>
                  (Inr (cursor (ctx w')),
                   w'\<lparr>ctx := (ctx w')\<lparr>cursor := int64 (cursor (ctx w') + 1)\<rparr>\<rparr>))))"

text \<open>Modelled from the spec: GenerateTaskIDs of section 4.2: the next \<open>n\<close> integers,
  one after the other, renewing the range whenever the block is exhausted on the way. A
  failure returns the error and no IDs; like every call, it fails at once on a Context
  that is not Active (section 7).\<close>

fun generateTaskIDsLoop ::
  "nat \<Rightarrow> int list \<Rightarrow> world \<Rightarrow> (shard_error + int list) \<times> world" where
  "generateTaskIDsLoop 0 result w = (Inr result, w)"
| "generateTaskIDsLoop (Suc n) result w =
     (case GenerateTaskID w of
        (Inl e, w') \<Rightarrow> (Inl e, w')
      | (Inr i, w') \<Rightarrow> generateTaskIDsLoop n (result @ [i]) w')"

definition GenerateTaskIDs :: "int \<Rightarrow> world \<Rightarrow> (shard_error + int list) \<times> world" where
  "GenerateTaskIDs number w =
     (case errorByState (ctx w) of
        Some e \<Rightarrow> (Inl e, w)
      | None \<Rightarrow> generateTaskIDsLoop (nat number) [] w)"

subsection \<open>Queue-state tracker\<close>

text \<open>Modelled from the spec: the propagation policy of section 7 for queue-state and
  replication-state writes: a fencing rejection flips the Context to Invalid, any other
  failure is returned without flipping the state; on success the in-memory copy follows
  the persisted one.\<close>

definition persistFenced ::
  "(shard_record \<Rightarrow> shard_record) \<Rightarrow> (shard_context \<Rightarrow> shard_context) \<Rightarrow> world \<Rightarrow>
   shard_error option \<times> world" where
  "persistFenced update cache w =
     (case fencedWrite (rangeID (ctx w)) update (store w) of
        Inl OwnershipLost \<Rightarrow> (Some OwnershipLost, w\<lparr>ctx := (ctx w)\<lparr>state := Invalid\<rparr>\<rparr>)
      | Inl e \<Rightarrow> (Some e, w)
      | Inr st \<Rightarrow> (None, \<lparr>ctx = cache (ctx w), store = st\<rparr>))"

text \<open>Modelled from the spec: the acknowledged watermark of a reader in a queue state,
  section 3.\<close>

definition readerWatermark :: "queue_state \<Rightarrow> int \<Rightarrow> int option" where
  "readerWatermark qs reader = map_option ackWatermark (map_of (readerStates qs) reader)"

text \<open>Modelled from the spec: a supplied queue state carries a lower watermark than the
  persisted one (section 8) when some reader of the supplied state has a persisted
  watermark and the supplied one is below it.\<close>

definition lowersWatermark :: "queue_state option \<Rightarrow> queue_state \<Rightarrow> bool" where
  "lowersWatermark persisted qs =
     (case persisted of
        None \<Rightarrow> False
      | Some old \<Rightarrow>
          list_ex
            (\<lambda>reader.
               case (readerWatermark old reader, readerWatermark qs reader) of
                 (Some m0, Some m) \<Rightarrow> m < m0
               | _ \<Rightarrow> False)
            (map fst (readerStates qs)))"

text \<open>Modelled from the spec: SetQueueState of sections 3, 4.4 and 8: the caller-supplied
  state is persisted transactionally, fenced by the current range ID; within the
  transaction a state that carries a lower watermark than the persisted one is not
  written, so that a reader's acknowledged watermark never decreases: the call is
  rejected or is a no-op, by the policy of the Context. The spec names no error for the
  rejection; the model answers InvalidArgument. The count of completed tasks is not used
  by anything the spec describes.\<close>

definition SetQueueState :: "nat \<Rightarrow> int \<Rightarrow> queue_state \<Rightarrow> world \<Rightarrow> shard_error option \<times> world" where
  "SetQueueState category tasksCompleted qs w =
     (case errorByState (ctx w) of
        Some e \<Rightarrow> (Some e, w)
      | None \<Rightarrow>
          if available (store w) \<and> rec_rangeID (shard (store w)) = rangeID (ctx w) \<and>
             lowersWatermark (rec_queueStates (shard (store w)) category) qs
          then (case lowerWatermarkPolicy (ctx w) of
                  RejectLower \<Rightarrow> (Some InvalidArgument, w)
                | IgnoreLower \<Rightarrow> (None, w))
          else
          persistFenced
            (\<lambda>r. r\<lparr>rec_queueStates := (rec_queueStates r)(category \<mapsto> qs)\<rparr>)
            (\<lambda>c. c\<lparr>queueStates := (queueStates c)(category \<mapsto> qs)\<rparr>) w)"

subsection \<open>Replication state tracker\<close>

text \<open>Modelled from the spec: the monotone update of section 4.5 on an acknowledged
  task ID and its timestamp: an incoming level or time lower than the recorded one is
  dropped, the recorded one is kept.\<close>

definition mergeAck :: "(int \<times> int) option \<Rightarrow> int \<Rightarrow> int \<Rightarrow> int \<times> int" where
  "mergeAck recorded ackTaskID ackTimestamp =
     (case recorded of
        None \<Rightarrow> (ackTaskID, ackTimestamp)
      | Some (a, t) \<Rightarrow>
          (if ackTaskID < a then a else ackTaskID, if ackTimestamp < t then t else ackTimestamp))"

text \<open>Modelled from the spec: UpdateRemoteClusterInfo of section 4.5. The method has no
  result, so it reports nothing; it updates the in-memory state of an Active Context and
  does nothing on any other.\<close>

definition UpdateRemoteClusterInfo :: "string \<Rightarrow> int \<Rightarrow> int \<Rightarrow> world \<Rightarrow> world" where
  "UpdateRemoteClusterInfo cluster ackTaskID ackTimestamp w =
     (case errorByState (ctx w) of
        Some e \<Rightarrow> w
      | None \<Rightarrow>
          w\<lparr>ctx := (ctx w)\<lparr>remoteClusterInfo := (remoteClusterInfo (ctx w))
                 (cluster \<mapsto> mergeAck (remoteClusterInfo (ctx w) cluster) ackTaskID ackTimestamp)\<rparr>\<rparr>)"

text \<open>Modelled from the spec: UpdateReplicatorDLQAckLevel of section 4.5: a level lower
  than the recorded one is silently dropped; any other level is persisted, fenced by the
  range ID.\<close>

definition UpdateReplicatorDLQAckLevel ::
  "string \<Rightarrow> int \<Rightarrow> world \<Rightarrow> shard_error option \<times> world" where
  "UpdateReplicatorDLQAckLevel sourceCluster ackLevel w =
     (case errorByState (ctx w) of
        Some e \<Rightarrow> (Some e, w)
      | None \<Rightarrow>
          (case dlqAckLevel (ctx w) sourceCluster of
             Some recorded \<Rightarrow>
               (if ackLevel < recorded then (None, w)
                else persistFenced
                       (\<lambda>r. r\<lparr>rec_dlqAckLevel := (rec_dlqAckLevel r)(sourceCluster \<mapsto> ackLevel)\<rparr>)
                       (\<lambda>c. c\<lparr>dlqAckLevel := (dlqAckLevel c)(sourceCluster \<mapsto> ackLevel)\<rparr>) w)
           | None \<Rightarrow>
               persistFenced
                 (\<lambda>r. r\<lparr>rec_dlqAckLevel := (rec_dlqAckLevel r)(sourceCluster \<mapsto> ackLevel)\<rparr>)
                 (\<lambda>c. c\<lparr>dlqAckLevel := (dlqAckLevel c)(sourceCluster \<mapsto> ackLevel)\<rparr>) w))"

text \<open>Modelled from the spec: UpdateRemoteReaderInfo of section 4.5: the reader's
  acknowledged task ID and timestamp are merged monotonically; an update that changes
  nothing is dropped, any other is persisted, fenced by the range ID.\<close>

definition UpdateRemoteReaderInfo ::
  "int \<Rightarrow> int \<Rightarrow> int \<Rightarrow> world \<Rightarrow> shard_error option \<times> world" where
  "UpdateRemoteReaderInfo readerID ackTaskID ackTimestamp w =
     (case errorByState (ctx w) of
        Some e \<Rightarrow> (Some e, w)
      | None \<Rightarrow>
          (let merged = mergeAck (remoteReaderInfo (ctx w) readerID) ackTaskID ackTimestamp in
           if remoteReaderInfo (ctx w) readerID = Some merged then (None, w)
           else persistFenced
                  (\<lambda>r. r\<lparr>rec_readerInfo := (rec_readerInfo r)(readerID \<mapsto> merged)\<rparr>)
                  (\<lambda>c. c\<lparr>remoteReaderInfo := (remoteReaderInfo c)(readerID \<mapsto> merged)\<rparr>) w))"

subsection \<open>Unloading, calls and events\<close>

text \<open>Modelled from the spec: the graceful unload of section 4.6, shared by
  UnloadForOwnershipLost and FinishStop: the Context enters Stopped; Invalid and Stopped
  are terminal and stay as they are.\<close>

definition stop :: "world \<Rightarrow> world" where
  "stop w =
     (if state (ctx w) = Invalid \<or> state (ctx w) = Stopped then w
      else w\<lparr>ctx := (ctx w)\<lparr>state := Stopped\<rparr>\<rparr>)"

definition UnloadForOwnershipLost :: "world \<Rightarrow> world" where
  "UnloadForOwnershipLost w = stop w"

definition FinishStop :: "world \<Rightarrow> world" where
  "FinishStop w = stop w"

text \<open>The calls of the interface that are modelled, with their arguments, and what a
  call hands back to its caller: an error, a task ID, a list of task IDs, the nil error,
  or nothing for a method without a result.\<close>

datatype call =
    CallGenerateTaskID
  | CallGenerateTaskIDs int
  | CallSetQueueState nat int queue_state
  | CallUpdateReplicatorDLQAckLevel string int
  | CallUpdateRemoteClusterInfo string int int
  | CallUpdateRemoteReaderInfo int int int
  | CallUnloadForOwnershipLost
  | CallFinishStop

datatype reply =
    Failed shard_error
  | TaskID int
  | TaskIDs "int list"
  | Succeeded
  | NoResult

definition errorReply :: "shard_error option \<Rightarrow> reply" where
  "errorReply e = (case e of None \<Rightarrow> Succeeded | Some err \<Rightarrow> Failed err)"

fun perform :: "call \<Rightarrow> world \<Rightarrow> reply \<times> world" where
  "perform CallGenerateTaskID w =
     (case GenerateTaskID w of (Inl e, w') \<Rightarrow> (Failed e, w') | (Inr i, w') \<Rightarrow> (TaskID i, w'))"
| "perform (CallGenerateTaskIDs n) w =
     (case GenerateTaskIDs n w of (Inl e, w') \<Rightarrow> (Failed e, w') | (Inr ids, w') \<Rightarrow> (TaskIDs ids, w'))"
| "perform (CallSetQueueState category n qs) w =
     (case SetQueueState category n qs w of (e, w') \<Rightarrow> (errorReply e, w'))"
| "perform (CallUpdateReplicatorDLQAckLevel cluster l) w =
     (case UpdateReplicatorDLQAckLevel cluster l w of (e, w') \<Rightarrow> (errorReply e, w'))"
| "perform (CallUpdateRemoteClusterInfo cluster a t) w =
     (NoResult, UpdateRemoteClusterInfo cluster a t w)"
| "perform (CallUpdateRemoteReaderInfo r a t) w =
     (case UpdateRemoteReaderInfo r a t w of (e, w') \<Rightarrow> (errorReply e, w'))"
| "perform CallUnloadForOwnershipLost w = (NoResult, UnloadForOwnershipLost w)"
| "perform CallFinishStop w = (NoResult, FinishStop w)"

text \<open>Modelled from the spec: what happens to a Context and its storage engine over
  time: a call on the Context; a competing acquisition by another owner (section 8),
  which increments the persisted range ID and reaches the superseded Context as the
  unload signal of section 3 (Lifecycle: the Context is invalidated when ownership is
  lost, detected via a failed conditional write or an explicit unload signal); and the
  storage engine becoming unreachable or reachable again (section 7, Transient).\<close>

datatype event =
    Call call
  | CompetingAcquire string
  | StorageDown
  | StorageUp

fun step :: "event \<Rightarrow> world \<Rightarrow> reply option \<times> world" where
  "step (Call c) w = (case perform c w of (r, w') \<Rightarrow> (Some r, w'))"
| "step (CompetingAcquire other) w =
     (None, UnloadForOwnershipLost (w\<lparr>store := competingAcquire other (store w)\<rparr>))"
| "step StorageDown w = (None, w\<lparr>store := (store w)\<lparr>available := False\<rparr>\<rparr>)"
| "step StorageUp w = (None, w\<lparr>store := (store w)\<lparr>available := True\<rparr>\<rparr>)"

fun run :: "event list \<Rightarrow> world \<Rightarrow> reply option list \<times> world" where
  "run [] w = ([], w)"
| "run (e # es) w =
     (case step e w of (r, w') \<Rightarrow> (case run es w' of (rs, w'') \<Rightarrow> (r # rs, w'')))"

text \<open>The task IDs a reply hands to the caller, and all of them over a run, in order.\<close>

fun taskIDsOf :: "reply option \<Rightarrow> int list" where
  "taskIDsOf (Some (TaskID i)) = [i]"
| "taskIDsOf (Some (TaskIDs ids)) = ids"
| "taskIDsOf _ = []"

definition issuedTaskIDs :: "event list \<Rightarrow> world \<Rightarrow> int list" where
  "issuedTaskIDs es w = concat (map taskIDsOf (fst (run es w)))"

subsection \<open>Notions used to state the properties of the shard Context\<close>

text \<open>The cursor lies within the owned block, its top included (the cursor is at the top
  when the block is exhausted), the block is not empty and the range ID is not
  negative.\<close>

definition cursorWithinBlock :: "world \<Rightarrow> bool" where
  "cursorWithinBlock w =
     (0 < rangeSize (ctx w) \<and> 0 \<le> rangeID (ctx w) \<and>
      rangeID (ctx w) * rangeSize (ctx w) \<le> cursor (ctx w) \<and>
      cursor (ctx w) \<le> rangeID (ctx w) * rangeSize (ctx w) + rangeSize (ctx w))"

text \<open>The number of task IDs that the calls of a sequence of events ask for.\<close>

fun requestedBy :: "event \<Rightarrow> int" where
  "requestedBy (Call CallGenerateTaskID) = 1"
| "requestedBy (Call (CallGenerateTaskIDs n)) = max 0 n"
| "requestedBy _ = 0"

definition requested :: "event list \<Rightarrow> int" where
  "requested es = sum_list (map requestedBy es)"

text \<open>Two worlds whose Contexts hold the same block and cursor.\<close>

definition sameBlock :: "world \<Rightarrow> world \<Rightarrow> bool" where
  "sameBlock w w' =
     (cursor (ctx w') = cursor (ctx w) \<and> rangeID (ctx w') = rangeID (ctx w) \<and>
      rangeSize (ctx w') = rangeSize (ctx w))"

text \<open>The Context is Active, its range ID is the persisted one and the storage engine
  can be reached.\<close>

definition leaseHeld :: "world \<Rightarrow> bool" where
  "leaseHeld w =
     (state (ctx w) = Active \<and> available (store w) \<and>
      rec_rangeID (shard (store w)) = rangeID (ctx w))"


text \<open>The persisted acknowledged watermark of a reader of a category.\<close>

definition persistedWatermark :: "nat \<Rightarrow> int \<Rightarrow> world \<Rightarrow> int option" where
  "persistedWatermark category reader w =
     (case rec_queueStates (shard (store w)) category of
        None \<Rightarrow> None
      | Some qs \<Rightarrow> readerWatermark qs reader)"

text \<open>The acknowledgement levels recorded by a Context, and the order on recorded
  levels: a level is not below another when nothing was recorded before, or when both
  are recorded and the first is at most the second.\<close>

definition clusterAck :: "world \<Rightarrow> string \<Rightarrow> int option" where
  "clusterAck w cluster = map_option fst (remoteClusterInfo (ctx w) cluster)"

definition readerAck :: "world \<Rightarrow> int \<Rightarrow> int option" where
  "readerAck w readerID = map_option fst (remoteReaderInfo (ctx w) readerID)"

definition dlqAck :: "world \<Rightarrow> string \<Rightarrow> int option" where
  "dlqAck w cluster = dlqAckLevel (ctx w) cluster"

fun notBelow :: "int option \<Rightarrow> int option \<Rightarrow> bool" where
  "notBelow None after = True"
| "notBelow (Some l) None = False"
| "notBelow (Some l) (Some l') = (l \<le> l')"

text \<open>
  The concrete scenario of section 8: shard 7 with persisted range ID 3; the world after
  acquisition with a given range size; a queue state with one reader; the world after
  three task IDs and a competing acquisition; a world whose persisted watermark is 10,
  under either policy; and a shard with range size 2 acquired at range ID \<open>2 ^ 62 - 2\<close>,
  whose block \<open>[2 ^ 63 - 4, 2 ^ 63 - 2)\<close> is the last but one below \<open>2 ^ 63\<close>.
\<close>

definition sampleStorage :: storage where
  "sampleStorage =
     \<lparr>shard = \<lparr>rec_shardID = 7, rec_owner = ''previous'', rec_rangeID = 3,
               rec_queueStates = Map.empty, rec_dlqAckLevel = Map.empty,
               rec_readerInfo = Map.empty\<rparr>,
      available = True\<rparr>"

definition acquiredWorld :: "int \<Rightarrow> world" where
  "acquiredWorld rsize = snd (acquireShard 7 ''original'' rsize RejectLower sampleStorage)"

definition sampleQueueState :: "int \<Rightarrow> queue_state" where
  "sampleQueueState mark =
     \<lparr>exclusiveHighWatermark = 4003,
      readerStates = [(0, \<lparr>ackWatermark = mark, completedRanges = []\<rparr>)]\<rparr>"



definition lastBlockWorld :: world where
  "lastBlockWorld =
     snd (acquireShard 7 ''original'' 2 RejectLower
            (sampleStorage\<lparr>shard := (shard sampleStorage)\<lparr>rec_rangeID := 4611686018427387901\<rparr>\<rparr>))"

text \<open>The acquired world after level 5 at time 10 was recorded for \<open>clusterB\<close> (in both
  ways) and for reader 1.\<close>

definition ackedWorld :: world where
  "ackedWorld =
     snd (UpdateRemoteReaderInfo 1 5 10
       (snd (UpdateReplicatorDLQAckLevel ''clusterB'' 5
         (UpdateRemoteClusterInfo ''clusterB'' 5 10 (acquiredWorld 1000)))))"

section \<open>Properties of the dynamic configuration lookup\<close>

subsection \<open>findMatch against the first-match lookup\<close>

lemma find_append_alt:
  "List.find P (xs @ ys) = (case List.find P xs of Some x \<Rightarrow> Some x | None \<Rightarrow> List.find P ys)"
  by (induction xs) auto

lemma match_cvs_find:
  "match_cvs m cvs =
     map_option snd (List.find (\<lambda>(c, v). m = c) (map (\<lambda>cv. (Constraints cv, Value cv)) cvs))"
  by (induction cvs) auto

lemma match_defaultCVs_find:
  "match_defaultCVs box m dcvs =
     map_option snd
       (List.find (\<lambda>(c, v). m = c) (map (\<lambda>cv. (TConstraints cv, box (TValue cv))) dcvs))"
  by (induction dcvs) auto

lemma match_level:
  "map_option snd (List.find (\<lambda>(c, v). m = c) (candidates box cvs dcvs)) =
     (case match_cvs m cvs of Some v \<Rightarrow> Some v | None \<Rightarrow> match_defaultCVs box m dcvs)"
  by (simp add: candidates_def find_append_alt match_cvs_find match_defaultCVs_find
      split: option.splits)

lemma find_pair_level:
  "List.find (\<lambda>(m', c, v). m' = c) (map (Pair m) ys) =
     map_option (Pair m) (List.find (\<lambda>(c, v). m = c) ys)"
  by (induction ys) auto

lemma firstMatch_Nil: "firstMatch box cvs dcvs [] = None"
  by (simp add: firstMatch_def)

lemma firstMatch_Cons:
  "firstMatch box cvs dcvs (m # ms) =
     (case match_cvs m cvs of
        Some v \<Rightarrow> Some v
      | None \<Rightarrow>
         (case match_defaultCVs box m dcvs of
            Some v \<Rightarrow> Some v
          | None \<Rightarrow> firstMatch box cvs dcvs ms))"
proof -
  let ?P = "\<lambda>(m', c, v). m' = c"
  let ?f = "\<lambda>(m', c, v). v"
  let ?cand = "candidates box cvs dcvs"
  have lvl: "map_option ?f (List.find ?P (map (Pair m) ?cand)) =
      (case match_cvs m cvs of Some v \<Rightarrow> Some v | None \<Rightarrow> match_defaultCVs box m dcvs)"
    unfolding find_pair_level match_level [symmetric]
    by (simp add: option.map_comp comp_def split_def)
  have "firstMatch box cvs dcvs (m # ms) =
      (case map_option ?f (List.find ?P (map (Pair m) ?cand)) of
         Some v \<Rightarrow> Some v
       | None \<Rightarrow> firstMatch box cvs dcvs ms)"
    by (cases "List.find ?P (map (Pair m) ?cand)")
       (simp_all add: firstMatch_def find_append_alt)
  then show ?thesis
    unfolding lvl by (simp split: option.splits)
qed

lemma match_precedence_firstMatch:
  "match_precedence box cvs dcvs prec =
     (case firstMatch box cvs dcvs prec of
        Some v \<Rightarrow> (v, None)
      | None \<Rightarrow> (GoNil, Some errNoMatchingConstraint))"
  by (induction prec) (simp_all add: firstMatch_Nil firstMatch_Cons split: option.splits)

lemma firstMatch_no_candidates: "firstMatch box [] [] prec = None"
  by (induction prec) (simp_all add: firstMatch_Nil firstMatch_Cons)

text \<open>
  C3. For every boxing, client value list, typed default list and precedence list,
  findMatch scans the precedence entries in order and returns the value of the first
  constrained value whose constraints equal the entry, the client's values being checked
  before the typed defaults at each precedence level: its result is the value
  \<open>firstMatch\<close> finds, with no error; when there is none, it is nil with
  errKeyNotPresent (both lists empty) or errNoMatchingConstraint.
\<close>

theorem findMatch_first_match_wins:
  "findMatch box cvs defaultCVs precedence =
     (case firstMatch box cvs defaultCVs precedence of
        Some v \<Rightarrow> (v, None)
      | None \<Rightarrow>
          (GoNil, Some (if cvs = [] \<and> defaultCVs = [] then errKeyNotPresent
                        else errNoMatchingConstraint)))"
  by (auto simp: findMatch_def match_precedence_firstMatch firstMatch_no_candidates
      split: option.splits)

text \<open>
  For the key \<open>limit\<close> the client has a string under constraints 1 and an int32 under
  constraints 0, and the typed default 7 is under constraints 0: with precedence 2, 0, 1
  the first entry that matches is 0, where the client's int32 is found before the
  default; with precedence 1, 0 the string under 1 wins.
\<close>

theorem findMatch_first_match_wins_witness:
  "findMatch GoInt (client sampleCollection ''limit'') [\<lparr>TConstraints = 0, TValue = 7\<rparr>] [2, 0, 1] =
     (GoInt32 5, None)
   \<and> findMatch GoInt (client sampleCollection ''limit'') [\<lparr>TConstraints = 0, TValue = 7\<rparr>] [1, 0] =
     (GoString ''ten'', None)
   \<and> findMatch GoInt (client sampleCollection ''other'') [\<lparr>TConstraints = 0, TValue = 7\<rparr>] [1, 0] =
     (GoInt 7, None)"
  using
    findMatch_first_match_wins [of GoInt "client sampleCollection ''limit''"
      "[\<lparr>TConstraints = 0, TValue = 7\<rparr>]" "[2, 0, 1]"]
    findMatch_first_match_wins [of GoInt "client sampleCollection ''limit''"
      "[\<lparr>TConstraints = 0, TValue = 7\<rparr>]" "[1, 0]"]
    findMatch_first_match_wins [of GoInt "client sampleCollection ''other''"
      "[\<lparr>TConstraints = 0, TValue = 7\<rparr>]" "[1, 0]"]
  by (simp add: firstMatch_def candidates_def sampleCollection_def NewCollection_def)

subsection \<open>matchAndConvert\<close>

lemma fst_matchAndConvert:
  "fst (matchAndConvert z box c key def cdef convert prec) =
     (case findMatch box (client c key) (defaultCVsOf z def cdef) prec of
        (v, None) \<Rightarrow>
          (case convert v of
             (t, None) \<Rightarrow> t
           | (t, Some e) \<Rightarrow> fst (convert (box def)))
      | (v, Some e) \<Rightarrow> fst (convert (box def)))"
  by (simp add: matchAndConvert_def defaultCVsOf_def Let_def split_def
      split: option.splits prod.splits)

text \<open>
  C4. matchAndConvert returns a value of the requested type and no error: the converted
  matched value when a constrained value matches and converts; the first component of
  converting the global default when nothing matches, and also when the matched value
  does not convert (the conversion error is logged, never returned).
\<close>

theorem matchAndConvert_soft_failure:
  "fst (matchAndConvert z box c key def cdef convert prec) =
     (case findMatch box (client c key) (defaultCVsOf z def cdef) prec of
        (v, None) \<Rightarrow>
          (case convert v of
             (t, None) \<Rightarrow> t
           | (t, Some e) \<Rightarrow> fst (convert (box def)))
      | (v, Some e) \<Rightarrow> fst (convert (box def)))"
proof -
  obtain v matchErr where m:
    "findMatch box (client c key)
       (case cdef of None \<Rightarrow> [\<lparr>TConstraints = z, TValue = def\<rparr>] | Some d \<Rightarrow> d) prec =
     (v, matchErr)"
    by (cases "findMatch box (client c key)
       (case cdef of None \<Rightarrow> [\<lparr>TConstraints = z, TValue = def\<rparr>] | Some d \<Rightarrow> d) prec")
  show ?thesis
  proof (cases matchErr)
    case (Some e)
    \<comment> \<open>no match: the default is converted, and a failure is not retried\<close>
    with m show ?thesis
      by (simp add: matchAndConvert_def defaultCVsOf_def Let_def split_def
          split: option.splits)
  next
    case None
    obtain t convertErr where cv: "convert v = (t, convertErr)"
      by (cases "convert v")
    show ?thesis
    proof (cases convertErr)
      case None
      \<comment> \<open>the matched value converts\<close>
      with m \<open>matchErr = None\<close> cv show ?thesis
        by (simp add: matchAndConvert_def defaultCVsOf_def Let_def split_def
            split: option.splits)
    next
      case (Some e)
      \<comment> \<open>the matched value does not convert: the default is converted instead\<close>
      with m \<open>matchErr = None\<close> cv show ?thesis
        by (simp add: matchAndConvert_def defaultCVsOf_def Let_def split_def
            split: option.splits)
    qed
  qed
qed

text \<open>
  The client has a string under constraints 1 and an int32 under constraints 0 for the key
  \<open>limit\<close>, the default is 7: a matched string does not convert and gives 7, the matched
  int32 gives 5, no match gives 7, and an absent key gives 7.
\<close>

theorem matchAndConvert_soft_failure_witness:
  "fst (matchAndConvert 0 GoInt sampleCollection ''limit'' 7 None convertInt [1, 0]) = 7
   \<and> fst (matchAndConvert 0 GoInt sampleCollection ''limit'' 7 None convertInt [0]) = 5
   \<and> fst (matchAndConvert 0 GoInt sampleCollection ''limit'' 7 None convertInt [2]) = 7
   \<and> fst (matchAndConvert 0 GoInt sampleCollection ''other'' 7 (Some []) convertInt [0]) = 7"
  using
    matchAndConvert_soft_failure [of 0 GoInt sampleCollection "''limit''" 7 None convertInt "[1, 0]"]
    matchAndConvert_soft_failure [of 0 GoInt sampleCollection "''limit''" 7 None convertInt "[0]"]
    matchAndConvert_soft_failure [of 0 GoInt sampleCollection "''limit''" 7 None convertInt "[2]"]
    matchAndConvert_soft_failure [of 0 GoInt sampleCollection "''other''" 7 "Some []" convertInt "[0]"]
  by (simp add: findMatch_def convertInt_def defaultCVsOf_def sampleCollection_def NewCollection_def)

subsection \<open>The two errors of findMatch\<close>

lemma match_cvs_None: "match_cvs m cvs = None \<longleftrightarrow> m \<notin> Constraints ` set cvs"
  by (induction cvs) auto

lemma match_defaultCVs_None:
  "match_defaultCVs box m dcvs = None \<longleftrightarrow> m \<notin> TConstraints ` set dcvs"
  by (induction dcvs) auto

lemma snd_match_precedence:
  "snd (match_precedence box cvs dcvs prec) =
     (if \<forall>m\<in>set prec. m \<notin> Constraints ` set cvs \<and> m \<notin> TConstraints ` set dcvs
      then Some errNoMatchingConstraint else None)"
proof (induction prec)
  case Nil
  then show ?case by simp
next
  case (Cons m ms)
  show ?case
  proof (cases "match_cvs m cvs")
    case (Some v)
    then have "m \<in> Constraints ` set cvs"
      using match_cvs_None [of m cvs] by simp
    with Some show ?thesis by auto
  next
    case None
    note n1 = this
    then have c1: "m \<notin> Constraints ` set cvs"
      by (simp add: match_cvs_None)
    show ?thesis
    proof (cases "match_defaultCVs box m dcvs")
      case (Some v)
      then have "m \<in> TConstraints ` set dcvs"
        using match_defaultCVs_None [of box m dcvs] by simp
      with n1 Some show ?thesis by auto
    next
      case None
      then have c2: "m \<notin> TConstraints ` set dcvs"
        by (simp add: match_defaultCVs_None)
      from n1 None c1 c2 Cons show ?thesis by simp
    qed
  qed
qed

text \<open>
  C8. findMatch returns errKeyNotPresent exactly when the client's list and the typed
  default list are both empty, and errNoMatchingConstraint exactly when they are not both
  empty and no precedence entry equals the constraints of any entry of either list; when
  findMatch returns an error, matchAndConvert converts the global default.
\<close>

theorem findMatch_errors:
  "(snd (findMatch box cvs defaultCVs precedence) = Some errKeyNotPresent \<longleftrightarrow>
      cvs = [] \<and> defaultCVs = [])
   \<and> (snd (findMatch box cvs defaultCVs precedence) = Some errNoMatchingConstraint \<longleftrightarrow>
        \<not> (cvs = [] \<and> defaultCVs = []) \<and>
        (\<forall>m\<in>set precedence. m \<notin> Constraints ` set cvs \<and> m \<notin> TConstraints ` set defaultCVs))
   \<and> (snd (findMatch box (client c key) (defaultCVsOf z def cdef) precedence) \<noteq> None \<longrightarrow>
        fst (matchAndConvert z box c key def cdef convert precedence) = fst (convert (box def)))"
proof -
  have 1: "snd (findMatch box cvs defaultCVs precedence) = Some errKeyNotPresent \<longleftrightarrow>
      cvs = [] \<and> defaultCVs = []"
    by (simp add: findMatch_def snd_match_precedence)
  have 2: "snd (findMatch box cvs defaultCVs precedence) = Some errNoMatchingConstraint \<longleftrightarrow>
        \<not> (cvs = [] \<and> defaultCVs = []) \<and>
        (\<forall>m\<in>set precedence. m \<notin> Constraints ` set cvs \<and> m \<notin> TConstraints ` set defaultCVs)"
    by (simp add: findMatch_def snd_match_precedence)
  have 3: "snd (findMatch box (client c key) (defaultCVsOf z def cdef) precedence) \<noteq> None \<longrightarrow>
        fst (matchAndConvert z box c key def cdef convert precedence) = fst (convert (box def))"
    by (auto simp: fst_matchAndConvert split: prod.splits option.splits)
  from 1 2 3 show ?thesis by blast
qed

text \<open>
  An absent key with an empty, non-nil default list is errKeyNotPresent; the key \<open>limit\<close>
  looked up under constraints 2 is errNoMatchingConstraint; both give the default 7.
\<close>

theorem findMatch_errors_witness:
  "snd (findMatch GoInt (client sampleCollection ''other'') [] [0::nat]) = Some errKeyNotPresent
   \<and> fst (matchAndConvert 0 GoInt sampleCollection ''other'' 7 (Some []) convertInt [0]) = 7
   \<and> snd (findMatch GoInt (client sampleCollection ''limit'')
        [\<lparr>TConstraints = 0, TValue = 7\<rparr>] [2]) = Some errNoMatchingConstraint
   \<and> fst (matchAndConvert 0 GoInt sampleCollection ''limit'' 7 None convertInt [2]) = 7"
  using
    findMatch_errors [of GoInt "client sampleCollection ''other''" "[]" "[0]"
      sampleCollection "''other''" 0 7 "Some []" convertInt]
    findMatch_errors [of GoInt "client sampleCollection ''limit''"
      "[\<lparr>TConstraints = 0, TValue = 7\<rparr>]" "[2]" sampleCollection "''limit''" 0 7 None convertInt]
  by (simp add: defaultCVsOf_def sampleCollection_def NewCollection_def convertInt_def)

subsection \<open>The conversion functions\<close>

lemma convertInt_isGoInteger: "snd (convertInt v) = None \<longleftrightarrow> isGoInteger v"
  by (cases v) (simp_all add: convertInt_def)

lemma convertInt_not_integer:
  "\<not> isGoInteger v \<Longrightarrow> convertInt v = (0, Some (New ''value type is not int''))"
  by (cases v) (simp_all add: convertInt_def)

lemma sint_mult_Second:
  fixes a :: "64 word"
  assumes "- 9223372036 \<le> sint a" "sint a \<le> 9223372036"
  shows "sint (a * Second) = sint a * 1000000000"
proof -
  have "sint (a * Second) = signed_take_bit 63 (sint a * 1000000000)"
    by (simp add: sint_word_ariths Second_def)
  also have "\<dots> = sint a * 1000000000"
    using assms by (intro signed_take_bit_int_eq_self) simp_all
  finally show ?thesis .
qed

lemma sint_scast_up:
  "LENGTH('a::len) \<le> 64 \<Longrightarrow> sint (scast (v :: 'a word) :: 64 word) = sint v"
  by (rule sint_up_scast) (simp add: is_up)

lemma sint_ucast_up:
  "LENGTH('a::len) < 64 \<Longrightarrow> sint (ucast (v :: 'a word) :: 64 word) = uint v"
proof -
  assume l: "LENGTH('a) < 64"
  have "uint v < 2 ^ LENGTH('a)" by (rule uint_bounded)
  also have "(2::int) ^ LENGTH('a) \<le> 2 ^ 63"
    using l by (intro power_increasing) simp_all
  finally have b: "uint v < 2 ^ 63" .
  have "sint (ucast v :: 64 word) = signed_take_bit 63 (uint v)"
    by (simp add: sint_uint uint_up_ucast is_up l less_imp_le)
  also have "\<dots> = uint v"
    using b by (intro signed_take_bit_int_eq_self) (simp_all add: order_trans [of _ 0])
  finally show ?thesis .
qed

lemma sint_uint_64: "uint (v :: 64 word) < 2 ^ 63 \<Longrightarrow> sint v = uint v"
proof -
  assume b: "uint v < 2 ^ 63"
  have "sint v = signed_take_bit 63 (uint v)"
    by (simp add: sint_uint)
  also have "\<dots> = uint v"
    using b by (intro signed_take_bit_int_eq_self) (simp_all add: order_trans [of _ 0])
  finally show ?thesis .
qed

lemma sint_convertInt:
  "isGoInteger v \<Longrightarrow> integerValue v < 2 ^ 63 \<Longrightarrow> sint (fst (convertInt v)) = integerValue v"
  by (cases v) (simp_all add: convertInt_def sint_scast_up sint_ucast_up sint_uint_64)

lemma convertDuration_integer:
  "isGoInteger v \<Longrightarrow> convertDuration parse fo v = (fst (convertInt v) * Second, None)"
  by (cases v) (simp_all add: convertDuration_def convertInt_def)

lemma convertDuration_other:
  "\<not> isGoInteger v \<Longrightarrow> \<not> isGoFloat v \<Longrightarrow> (\<forall>d. v \<noteq> GoDuration d) \<Longrightarrow> (\<forall>s. v \<noteq> GoString s) \<Longrightarrow>
   convertDuration parse fo v = (0, Some (New ''value not convertible to Duration''))"
  by (cases v) (simp_all add: convertDuration_def convertInt_def convertFloat_def)

lemma convertDuration_seconds:
  assumes "isGoInteger v" "- 9223372036 \<le> integerValue v" "integerValue v \<le> 9223372036"
  shows "sint (fst (convertDuration parse fo v)) = integerValue v * 1000000000"
proof -
  have "sint (fst (convertInt v)) = integerValue v"
    using assms by (intro sint_convertInt) simp_all
  then show ?thesis
    using assms by (simp add: convertDuration_integer sint_mult_Second)
qed

text \<open>
  C9. convertDuration returns a \<^verbatim>\<open>time.Duration\<close> unchanged; it hands a string to the
  default-seconds parser and returns what the parser returns (zero and a wrapped error
  when the parser fails); it reads a value of any Go integer type as a count of seconds,
  the product of its conversion to \<^verbatim>\<open>int\<close> with \<^verbatim>\<open>time.Second\<close> as Go's \<^verbatim>\<open>int64\<close>
  multiplication computes it, which is exactly that many seconds in nanoseconds for every
  count between -9223372036 and 9223372036; it reads a \<^verbatim>\<open>float32\<close> or \<^verbatim>\<open>float64\<close> as
  seconds, the product with \<^verbatim>\<open>float64(time.Second)\<close> converted to \<^verbatim>\<open>int64\<close>; for a
  value of any other type it returns zero and an error.
\<close>

theorem convertDuration_cases:
  "convertDuration parse fo (GoDuration d) = (d, None)
   \<and> convertDuration parse fo (GoString s) =
       (case parse s of
          (d', None) \<Rightarrow> (d', None)
        | (d', Some err) \<Rightarrow> (0, Some (Errorf ''failed to parse duration: '' err)))
   \<and> (isGoInteger v \<longrightarrow> convertDuration parse fo v = (fst (convertInt v) * Second, None))
   \<and> (isGoInteger v \<and> - 9223372036 \<le> integerValue v \<and> integerValue v \<le> 9223372036 \<longrightarrow>
        sint (fst (convertDuration parse fo v)) = integerValue v * 1000000000)
   \<and> convertDuration parse fo (GoFloat32 f) =
       (to_int64 fo (fmul fo (widen fo f) (of_int64 fo Second)), None)
   \<and> convertDuration parse fo (GoFloat64 g) =
       (to_int64 fo (fmul fo g (of_int64 fo Second)), None)
   \<and> (\<not> isGoInteger v \<and> \<not> isGoFloat v \<and> (\<forall>d. v \<noteq> GoDuration d) \<and> (\<forall>s. v \<noteq> GoString s) \<longrightarrow>
        convertDuration parse fo v = (0, Some (New ''value not convertible to Duration'')))"
proof -
  have 1: "convertDuration parse fo (GoDuration d) = (d, None)"
    by (simp add: convertDuration_def)
  have 2: "convertDuration parse fo (GoString s) =
       (case parse s of
          (d', None) \<Rightarrow> (d', None)
        | (d', Some err) \<Rightarrow> (0, Some (Errorf ''failed to parse duration: '' err)))"
    by (simp add: convertDuration_def split: prod.splits option.splits)
  have 5: "convertDuration parse fo (GoFloat32 f) =
       (to_int64 fo (fmul fo (widen fo f) (of_int64 fo Second)), None)"
    by (simp add: convertDuration_def convertInt_def convertFloat_def)
  have 6: "convertDuration parse fo (GoFloat64 g) =
       (to_int64 fo (fmul fo g (of_int64 fo Second)), None)"
    by (simp add: convertDuration_def convertInt_def convertFloat_def)
  show ?thesis
    using 1 2 5 6 convertDuration_integer [of v parse fo] convertDuration_seconds [of v parse fo]
      convertDuration_other [of v parse fo]
    by blast
qed

text \<open>
  The int8 -2 is -2 seconds, the uint16 90 is 90 seconds, a bool is refused.
\<close>

theorem convertDuration_cases_witness:
  "convertDuration (\<lambda>s. (0, None)) sampleFloatOps (GoInt8 (- 2)) = (- 2000000000, None)
   \<and> sint (fst (convertDuration (\<lambda>s. (0, None)) sampleFloatOps (GoUint16 90))) = 90000000000
   \<and> convertDuration (\<lambda>s. (0, None)) sampleFloatOps (GoBool True) =
       (0, Some (New ''value not convertible to Duration''))"
  using
    convertDuration_cases [of "\<lambda>s. (0, None)" sampleFloatOps 0 "[]" "GoInt8 (- 2)" 0 0]
    convertDuration_cases [of "\<lambda>s. (0, None)" sampleFloatOps 0 "[]" "GoUint16 90" 0 0]
    convertDuration_cases [of "\<lambda>s. (0, None)" sampleFloatOps 0 "[]" "GoBool True" 0 0]
  by (simp add: convertInt_def Second_def)

lemma convertBool_accepts:
  "snd (convertBool v) = None \<longleftrightarrow>
     (\<exists>b. v = GoBool b) \<or> (\<exists>s. v = GoString s \<and> s \<in> set parseBoolAccepts)"
  by (cases v) (auto simp: convertBool_def ParseBool_def parseBoolAccepts_def)

lemma word_of_int_sint_scast: "word_of_int (sint v) = scast v"
  by (rule scast_eq [symmetric])

lemma word_of_int_uint_ucast: "word_of_int (uint v) = ucast v"
  by (rule ucast_eq [symmetric])

lemma convertInt_value:
  "isGoInteger v \<Longrightarrow> convertInt v = (word_of_int (integerValue v), None)"
  by (cases v) (simp_all add: convertInt_def word_of_int_sint_scast word_of_int_uint_ucast)

lemma convertFloat_integer:
  "isGoInteger v \<Longrightarrow> convertFloat fo v = (of_int64 fo (word_of_int (integerValue v)), None)"
  by (cases v)
     (simp_all add: convertFloat_def convertInt_def word_of_int_sint_scast word_of_int_uint_ucast)

lemma convertFloat_other:
  "\<not> isGoInteger v \<Longrightarrow> \<not> isGoFloat v \<Longrightarrow>
     convertFloat fo v = (0, Some (New ''value type is not float64''))"
  by (cases v) (simp_all add: convertFloat_def convertInt_def)

lemma convertFloat_accepts:
  "snd (convertFloat fo v) = None \<longleftrightarrow> isGoFloat v \<or> isGoInteger v"
  by (cases v) (simp_all add: convertFloat_def convertInt_def)

lemma convertBool_string:
  "convertBool (GoString s) =
     (if s \<in> set [''1'', ''t'', ''T'', ''true'', ''TRUE'', ''True''] then (True, None)
      else if s \<in> set [''0'', ''f'', ''F'', ''false'', ''FALSE'', ''False''] then (False, None)
      else (False, Some (syntaxError ''ParseBool'' s)))"
  by (simp add: convertBool_def ParseBool_def)

lemma convertBool_other:
  "(\<forall>b. v \<noteq> GoBool b) \<Longrightarrow> (\<forall>s. v \<noteq> GoString s) \<Longrightarrow>
     convertBool v = (False, Some (New ''value type is not bool''))"
  by (cases v) (auto simp: convertBool_def)

lemma convertString_other:
  "(\<forall>s. v \<noteq> GoString s) \<Longrightarrow> convertString v = ([], Some (New ''value type is not string''))"
  by (cases v) (auto simp: convertString_def)

lemma convertMap_other:
  "(\<forall>m. v \<noteq> GoMap m) \<Longrightarrow> convertMap v = (None, Some (New ''value type is not map''))"
  by (cases v) (auto simp: convertMap_def)

text \<open>
  C10. convertInt, convertFloat, convertBool, convertString and convertMap are total:
  on every input each of them returns a converted value with no error, or the zero value
  of its target type with an error. The converted value is pinned on every accepted
  input: convertInt returns the integer's value reduced to 64 bits (the value itself when
  it is below \<open>2 ^ 63\<close>), convertFloat returns a \<^verbatim>\<open>float64\<close> as it is, a \<^verbatim>\<open>float32\<close>
  widened and an integer converted from what convertInt returns, convertBool returns a
  bool as it is and what \<^verbatim>\<open>strconv.ParseBool\<close> reads in a string, convertString and
  convertMap return the string and the map as they are. The accepted inputs are pinned
  too: convertInt accepts exactly the values of the Go integer types, and no string;
  convertFloat exactly the two floating-point types and the integer types; convertBool
  exactly the bools and the strings that \<^verbatim>\<open>strconv.ParseBool\<close> parses; convertString
  exactly the strings; convertMap exactly the maps.
\<close>

theorem conversions_total:
  "(snd (convertInt v) = None \<or> convertInt v = (0, Some (New ''value type is not int'')))
   \<and> (snd (convertFloat fo v) = None \<or>
        convertFloat fo v = (0, Some (New ''value type is not float64'')))
   \<and> (snd (convertBool v) = None \<or>
        convertBool v = (False, Some (New ''value type is not bool'')) \<or>
        (\<exists>s. v = GoString s \<and> convertBool v = (False, Some (syntaxError ''ParseBool'' s))))
   \<and> (snd (convertString v) = None \<or>
        convertString v = ([], Some (New ''value type is not string'')))
   \<and> (snd (convertMap v) = None \<or> convertMap v = (None, Some (New ''value type is not map'')))
   \<and> (snd (convertInt v) = None \<longleftrightarrow> isGoInteger v)
   \<and> convertInt (GoString s) = (0, Some (New ''value type is not int''))
   \<and> (snd (convertBool v) = None \<longleftrightarrow>
        (\<exists>b. v = GoBool b) \<or> (\<exists>s. v = GoString s \<and> s \<in> set parseBoolAccepts))
   \<and> (isGoInteger v \<longrightarrow> convertInt v = (word_of_int (integerValue v), None))
   \<and> (isGoInteger v \<and> integerValue v < 2 ^ 63 \<longrightarrow> sint (fst (convertInt v)) = integerValue v)
   \<and> (\<not> isGoInteger v \<longrightarrow> convertInt v = (0, Some (New ''value type is not int'')))
   \<and> convertFloat fo (GoFloat32 f) = (widen fo f, None)
   \<and> convertFloat fo (GoFloat64 g) = (g, None)
   \<and> (isGoInteger v \<longrightarrow>
        convertFloat fo v = (of_int64 fo (word_of_int (integerValue v)), None))
   \<and> (\<not> isGoInteger v \<and> \<not> isGoFloat v \<longrightarrow>
        convertFloat fo v = (0, Some (New ''value type is not float64'')))
   \<and> (snd (convertFloat fo v) = None \<longleftrightarrow> isGoFloat v \<or> isGoInteger v)
   \<and> convertBool (GoBool b) = (b, None)
   \<and> (s \<in> set [''1'', ''t'', ''T'', ''true'', ''TRUE'', ''True''] \<longrightarrow>
        convertBool (GoString s) = (True, None))
   \<and> (s \<in> set [''0'', ''f'', ''F'', ''false'', ''FALSE'', ''False''] \<longrightarrow>
        convertBool (GoString s) = (False, None))
   \<and> (s \<notin> set parseBoolAccepts \<longrightarrow>
        convertBool (GoString s) = (False, Some (syntaxError ''ParseBool'' s)))
   \<and> ((\<forall>b'. v \<noteq> GoBool b') \<and> (\<forall>s'. v \<noteq> GoString s') \<longrightarrow>
        convertBool v = (False, Some (New ''value type is not bool'')))
   \<and> convertString (GoString s) = (s, None)
   \<and> ((\<forall>s'. v \<noteq> GoString s') \<longrightarrow>
        convertString v = ([], Some (New ''value type is not string'')))
   \<and> (snd (convertString v) = None \<longleftrightarrow> (\<exists>s'. v = GoString s'))
   \<and> convertMap (GoMap m) = (m, None)
   \<and> ((\<forall>m'. v \<noteq> GoMap m') \<longrightarrow> convertMap v = (None, Some (New ''value type is not map'')))
   \<and> (snd (convertMap v) = None \<longleftrightarrow> (\<exists>m'. v = GoMap m'))"
proof -
  have 1: "snd (convertInt v) = None \<or> convertInt v = (0, Some (New ''value type is not int''))"
    by (cases v) (simp_all add: convertInt_def)
  have 2: "snd (convertFloat fo v) = None \<or>
        convertFloat fo v = (0, Some (New ''value type is not float64''))"
    by (cases v) (simp_all add: convertFloat_def convertInt_def)
  have 3: "snd (convertBool v) = None \<or>
        convertBool v = (False, Some (New ''value type is not bool'')) \<or>
        (\<exists>s. v = GoString s \<and> convertBool v = (False, Some (syntaxError ''ParseBool'' s)))"
    by (cases v) (simp_all add: convertBool_def ParseBool_def)
  have 4: "snd (convertString v) = None \<or>
        convertString v = ([], Some (New ''value type is not string''))"
    by (cases v) (simp_all add: convertString_def)
  have 5: "snd (convertMap v) = None \<or> convertMap v = (None, Some (New ''value type is not map''))"
    by (cases v) (simp_all add: convertMap_def)
  have 7: "convertInt (GoString s) = (0, Some (New ''value type is not int''))"
    by (simp add: convertInt_def)
  have 12: "convertFloat fo (GoFloat32 f) = (widen fo f, None)"
    and 13: "convertFloat fo (GoFloat64 g) = (g, None)"
    by (simp_all add: convertFloat_def)
  have 17: "convertBool (GoBool b) = (b, None)"
    by (simp add: convertBool_def)
  have 18: "s \<in> set [''1'', ''t'', ''T'', ''true'', ''TRUE'', ''True''] \<longrightarrow>
        convertBool (GoString s) = (True, None)"
    by (simp add: convertBool_string)
  have 19: "s \<in> set [''0'', ''f'', ''F'', ''false'', ''FALSE'', ''False''] \<longrightarrow>
        convertBool (GoString s) = (False, None)"
    by (auto simp: convertBool_string)
  have 20: "s \<notin> set parseBoolAccepts \<longrightarrow>
        convertBool (GoString s) = (False, Some (syntaxError ''ParseBool'' s))"
    by (auto simp: convertBool_string parseBoolAccepts_def)
  have 22: "convertString (GoString s) = (s, None)"
    by (simp add: convertString_def)
  have 24: "snd (convertString v) = None \<longleftrightarrow> (\<exists>s'. v = GoString s')"
    by (cases v) (simp_all add: convertString_def)
  have 25: "convertMap (GoMap m) = (m, None)"
    by (simp add: convertMap_def)
  have 27: "snd (convertMap v) = None \<longleftrightarrow> (\<exists>m'. v = GoMap m')"
    by (cases v) (simp_all add: convertMap_def)
  show ?thesis
    using 1 2 3 4 5 7 convertInt_isGoInteger [of v] convertBool_accepts [of v]
      convertInt_value [of v] sint_convertInt [of v] convertInt_not_integer [of v]
      12 13 convertFloat_integer [of v fo] convertFloat_other [of v fo]
      convertFloat_accepts [of fo v] 17 18 19 20 convertBool_other [of v]
      22 convertString_other [of v] 24 25 convertMap_other [of v] 27
    by blast
qed

text \<open>
  A uint8 and an int8 convert (the int8 sign-extended), also to a float; a string of
  digits is neither an int nor a float; \<open>TRUE\<close> and \<open>false\<close> parse as bools, \<open>yes\<close> does
  not; an int is not a bool, a string or a map.
\<close>

theorem conversions_total_witness:
  "convertInt (GoUint8 200) = (200, None)
   \<and> convertInt (GoInt8 (- 1)) = (- 1, None)
   \<and> sint (fst (convertInt (GoInt8 (- 1)))) = - 1
   \<and> convertInt (GoString ''12'') = (0, Some (New ''value type is not int''))
   \<and> convertFloat sampleFloatOps (GoUint8 200) = (200, None)
   \<and> convertFloat sampleFloatOps (GoString ''12'') =
       (0, Some (New ''value type is not float64''))
   \<and> convertBool (GoString ''TRUE'') = (True, None)
   \<and> convertBool (GoString ''false'') = (False, None)
   \<and> convertBool (GoString ''yes'') = (False, Some (syntaxError ''ParseBool'' ''yes''))
   \<and> convertBool (GoInt 1) = (False, Some (New ''value type is not bool''))
   \<and> convertString (GoInt 1) = ([], Some (New ''value type is not string''))
   \<and> convertMap (GoInt 1) = (None, Some (New ''value type is not map''))"
  using conversions_total [of "GoUint8 200" sampleFloatOps "''TRUE''"]
    conversions_total [of "GoInt8 (- 1)" sampleFloatOps "''false''"]
    conversions_total [of "GoString ''12''" sampleFloatOps "''yes''"]
    conversions_total [of "GoInt 1" sampleFloatOps "''12''"]
  by (simp add: sampleFloatOps_def parseBoolAccepts_def)

section \<open>Properties of the shard Context\<close>

subsection \<open>Evaluation of the concrete scenario\<close>

lemmas shard_eval =
  acquiredWorld_def acquireShard_def newContext_def sampleStorage_def
  AcquireOrRenew_def fencedWrite_def GenerateTaskIDs_def GenerateTaskID_def errorByState_def
  SetQueueState_def persistFenced_def competingAcquire_def errorReply_def Let_def
  issuedTaskIDs_def cursorWithinBlock_def sampleQueueState_def persistedWatermark_def
  UpdateRemoteClusterInfo_def UpdateReplicatorDLQAckLevel_def UpdateRemoteReaderInfo_def
  mergeAck_def int64_def UnloadForOwnershipLost_def FinishStop_def stop_def leaseHeld_def
  requested_def eval_nat_numeral

lemma acquiredWorld_eval:
  "acquiredWorld 1000 =
     \<lparr>ctx = \<lparr>state = Active, shardID = 7, owner = ''original'', rangeID = 4, rangeSize = 1000,
             cursor = 4000, lowerWatermarkPolicy = RejectLower, queueStates = Map.empty,
             remoteClusterInfo = Map.empty, dlqAckLevel = Map.empty,
             remoteReaderInfo = Map.empty\<rparr>,
      store = \<lparr>shard = \<lparr>rec_shardID = 7, rec_owner = ''original'', rec_rangeID = 4,
                        rec_queueStates = Map.empty, rec_dlqAckLevel = Map.empty,
                        rec_readerInfo = Map.empty\<rparr>,
               available = True\<rparr>\<rparr>"
  by (simp add: shard_eval)


lemma ackedWorld_eval:
  "ackedWorld =
     \<lparr>ctx = \<lparr>state = Active, shardID = 7, owner = ''original'', rangeID = 4, rangeSize = 1000,
             cursor = 4000, lowerWatermarkPolicy = RejectLower, queueStates = Map.empty,
             remoteClusterInfo = [''clusterB'' \<mapsto> (5, 10)],
             dlqAckLevel = [''clusterB'' \<mapsto> 5], remoteReaderInfo = [1 \<mapsto> (5, 10)]\<rparr>,
      store = \<lparr>shard = \<lparr>rec_shardID = 7, rec_owner = ''original'', rec_rangeID = 4,
                        rec_queueStates = Map.empty, rec_dlqAckLevel = [''clusterB'' \<mapsto> 5],
                        rec_readerInfo = [1 \<mapsto> (5, 10)]\<rparr>,
               available = True\<rparr>\<rparr>"
  by (simp add: ackedWorld_def acquiredWorld_eval UpdateRemoteClusterInfo_def
      UpdateReplicatorDLQAckLevel_def UpdateRemoteReaderInfo_def errorByState_def
      persistFenced_def fencedWrite_def mergeAck_def Let_def)



subsection \<open>Arithmetic that stays within 64 bits\<close>

text \<open>
  As long as the cursor lies within the owned block and one more block fits below
  \<open>2 ^ 63\<close>, no \<^verbatim>\<open>int64\<close> computation of the allocator or of the generator wraps around:
  both then compute with the mathematical integers.
\<close>

lemma int64_id: "- (2 ^ 63) \<le> x \<Longrightarrow> x < 2 ^ 63 \<Longrightarrow> int64 x = x"
  by (simp add: int64_def)

lemma block_bounds:
  fixes r s :: int
  assumes "0 \<le> r" and "0 < s"
  shows "0 \<le> r * s" and "r \<le> r * s" and "(r + 1) * s = r * s + s"
proof -
  show "0 \<le> r * s" using assms by simp
  from assms mult_left_mono [of 1 s r] show "r \<le> r * s" by simp
  show "(r + 1) * s = r * s + s" by (simp add: algebra_simps)
qed

lemma AcquireOrRenew_no_overflow:
  assumes "cursorWithinBlock w" and "cursor (ctx w) + rangeSize (ctx w) < 2 ^ 63"
  shows "AcquireOrRenew w =
     (case fencedWrite (rangeID (ctx w))
             (\<lambda>r. r\<lparr>rec_rangeID := rangeID (ctx w) + 1, rec_owner := owner (ctx w)\<rparr>) (store w) of
        Inl e \<Rightarrow> (Inl e, w\<lparr>ctx := (ctx w)\<lparr>state := Invalid\<rparr>\<rparr>)
      | Inr st \<Rightarrow>
          (Inr (rangeID (ctx w) + 1),
           \<lparr>ctx = (ctx w)\<lparr>state := Active, rangeID := rangeID (ctx w) + 1,
                     cursor := rangeID (ctx w) * rangeSize (ctx w) + rangeSize (ctx w)\<rparr>,
            store = st\<rparr>))"
proof -
  from assms have r: "0 \<le> rangeID (ctx w)" and s: "0 < rangeSize (ctx w)"
    and lo: "rangeID (ctx w) * rangeSize (ctx w) \<le> cursor (ctx w)"
    by (simp_all add: cursorWithinBlock_def)
  note b = block_bounds [OF r s]
  from r b lo assms(2) s have "int64 (rangeID (ctx w) + 1) = rangeID (ctx w) + 1"
    by (intro int64_id) linarith+
  moreover from b lo assms(2) s
  have "int64 (rangeID (ctx w) * rangeSize (ctx w) + rangeSize (ctx w)) =
        rangeID (ctx w) * rangeSize (ctx w) + rangeSize (ctx w)"
    by (intro int64_id) linarith+
  ultimately show ?thesis
    by (simp add: AcquireOrRenew_def Let_def b(3) split: sum.splits)
qed

lemma GenerateTaskID_no_overflow:
  assumes "cursorWithinBlock w" and "cursor (ctx w) + rangeSize (ctx w) < 2 ^ 63"
  shows "GenerateTaskID w =
     (case errorByState (ctx w) of
        Some e \<Rightarrow> (Inl e, w)
      | None \<Rightarrow>
          (if cursor (ctx w) < rangeID (ctx w) * rangeSize (ctx w) + rangeSize (ctx w)
           then (Inr (cursor (ctx w)), w\<lparr>ctx := (ctx w)\<lparr>cursor := cursor (ctx w) + 1\<rparr>\<rparr>)
           else
             (case fencedWrite (rangeID (ctx w))
                     (\<lambda>r. r\<lparr>rec_rangeID := rangeID (ctx w) + 1, rec_owner := owner (ctx w)\<rparr>)
                     (store w) of
                Inl e \<Rightarrow> (Inl e, w\<lparr>ctx := (ctx w)\<lparr>state := Invalid\<rparr>\<rparr>)
              | Inr st \<Rightarrow>
                  (Inr (cursor (ctx w)),
                   \<lparr>ctx = (ctx w)\<lparr>state := Active, rangeID := rangeID (ctx w) + 1,
                             cursor := cursor (ctx w) + 1\<rparr>,
                    store = st\<rparr>))))"
proof -
  from assms have r: "0 \<le> rangeID (ctx w)" and s: "0 < rangeSize (ctx w)"
    and lo: "rangeID (ctx w) * rangeSize (ctx w) \<le> cursor (ctx w)"
    and hi: "cursor (ctx w) \<le> rangeID (ctx w) * rangeSize (ctx w) + rangeSize (ctx w)"
    by (simp_all add: cursorWithinBlock_def)
  note b = block_bounds [OF r s]
  from r b lo assms(2) s
  have start: "int64 (rangeID (ctx w) * rangeSize (ctx w)) = rangeID (ctx w) * rangeSize (ctx w)"
    by (intro int64_id) linarith+
  from r b lo assms(2) s
  have top: "int64 (rangeID (ctx w) * rangeSize (ctx w) + rangeSize (ctx w)) =
        rangeID (ctx w) * rangeSize (ctx w) + rangeSize (ctx w)"
    by (intro int64_id) linarith+
  from r b lo assms(2) s
  have nxt: "int64 (cursor (ctx w) + 1) = cursor (ctx w) + 1"
    by (intro int64_id) linarith+
  show ?thesis
  proof (cases "cursor (ctx w) < rangeID (ctx w) * rangeSize (ctx w) + rangeSize (ctx w)")
    case True
    then show ?thesis
      by (simp add: GenerateTaskID_def start top nxt split: option.splits)
  next
    case False
    with hi have c: "cursor (ctx w) = rangeID (ctx w) * rangeSize (ctx w) + rangeSize (ctx w)"
      by simp
    from top c have cur: "int64 (cursor (ctx w)) = cursor (ctx w)"
      by simp
    show ?thesis
      by (simp add: GenerateTaskID_def start cur nxt AcquireOrRenew_no_overflow [OF assms]
                    c [symmetric]
               split: option.splits sum.splits)
  qed
qed

lemma GenerateTaskID_step:
  assumes "cursorWithinBlock w" and "cursor (ctx w) + rangeSize (ctx w) < 2 ^ 63"
    and "GenerateTaskID w = (r, w')"
  shows "cursorWithinBlock w' \<and> rangeSize (ctx w') = rangeSize (ctx w) \<and>
         cursor (ctx w) \<le> cursor (ctx w') \<and> cursor (ctx w') \<le> cursor (ctx w) + 1 \<and>
         (\<forall>i. r = Inr i \<longrightarrow> i = cursor (ctx w) \<and> cursor (ctx w') = cursor (ctx w) + 1)"
proof -
  from assms(1) have r: "0 \<le> rangeID (ctx w)" and s: "0 < rangeSize (ctx w)"
    and lo: "rangeID (ctx w) * rangeSize (ctx w) \<le> cursor (ctx w)"
    and hi: "cursor (ctx w) \<le> rangeID (ctx w) * rangeSize (ctx w) + rangeSize (ctx w)"
    by (simp_all add: cursorWithinBlock_def)
  note b = block_bounds [OF r s]
  from assms(3) r s lo hi b(3) show ?thesis
    unfolding GenerateTaskID_no_overflow [OF assms(1,2)]
    by (auto simp: cursorWithinBlock_def fencedWrite_def split: option.splits if_splits)
qed

lemma GenerateTaskID_held:
  assumes "leaseHeld w" and "cursorWithinBlock w"
    and "cursor (ctx w) + rangeSize (ctx w) < 2 ^ 63"
  shows "fst (GenerateTaskID w) = Inr (cursor (ctx w)) \<and>
         leaseHeld (snd (GenerateTaskID w)) \<and> cursorWithinBlock (snd (GenerateTaskID w)) \<and>
         cursor (ctx (snd (GenerateTaskID w))) = cursor (ctx w) + 1 \<and>
         rangeSize (ctx (snd (GenerateTaskID w))) = rangeSize (ctx w)"
proof -
  from assms(2) have r: "0 \<le> rangeID (ctx w)" and s: "0 < rangeSize (ctx w)"
    and lo: "rangeID (ctx w) * rangeSize (ctx w) \<le> cursor (ctx w)"
    and hi: "cursor (ctx w) \<le> rangeID (ctx w) * rangeSize (ctx w) + rangeSize (ctx w)"
    by (simp_all add: cursorWithinBlock_def)
  note b = block_bounds [OF r s]
  from assms(1) r s lo hi b(3) show ?thesis
    unfolding GenerateTaskID_no_overflow [OF assms(2,3)]
    by (auto simp: cursorWithinBlock_def leaseHeld_def fencedWrite_def errorByState_def)
qed

subsection \<open>Task IDs are strictly increasing\<close>

lemma generateTaskIDsLoop_step:
  assumes "cursorWithinBlock w" and "cursor (ctx w) + int n + rangeSize (ctx w) < 2 ^ 63"
    and "generateTaskIDsLoop n acc w = (r, w')"
  shows "cursorWithinBlock w' \<and> rangeSize (ctx w') = rangeSize (ctx w) \<and>
         cursor (ctx w) \<le> cursor (ctx w') \<and> cursor (ctx w') \<le> cursor (ctx w) + int n \<and>
         (\<forall>ids. r = Inr ids \<longrightarrow>
            ids = acc @ [cursor (ctx w) .. cursor (ctx w) + int n - 1] \<and>
            cursor (ctx w') = cursor (ctx w) + int n)"
  using assms
proof (induction n arbitrary: acc w)
  case 0
  then show ?case by auto
next
  case (Suc n)
  obtain r1 w1 where g: "GenerateTaskID w = (r1, w1)"
    by (cases "GenerateTaskID w")
  from Suc.prems(1) have pos: "0 < rangeSize (ctx w)"
    by (simp add: cursorWithinBlock_def)
  from Suc.prems(2) have b1: "cursor (ctx w) + rangeSize (ctx w) < 2 ^ 63"
    by simp
  note s1 = GenerateTaskID_step [OF Suc.prems(1) b1 g]
  show ?case
  proof (cases r1)
    case (Inl e)
    with g Suc.prems(3) s1 show ?thesis by auto
  next
    case (Inr i)
    with g Suc.prems(3) have l: "generateTaskIDsLoop n (acc @ [i]) w1 = (r, w')"
      by simp
    from s1 Inr have i: "i = cursor (ctx w)" and c1: "cursor (ctx w1) = cursor (ctx w) + 1"
      and inv1: "cursorWithinBlock w1" and rs1: "rangeSize (ctx w1) = rangeSize (ctx w)"
      by simp_all
    from Suc.prems(2) c1 rs1 have b2: "cursor (ctx w1) + int n + rangeSize (ctx w1) < 2 ^ 63"
      by simp
    note s2 = Suc.IH [OF inv1 b2 l]
    have up: "[cursor (ctx w) .. cursor (ctx w) + int (Suc n) - 1] =
              cursor (ctx w) # [cursor (ctx w1) .. cursor (ctx w1) + int n - 1]"
      using c1 upto_rec1 [of "cursor (ctx w)" "cursor (ctx w) + int (Suc n) - 1"]
      by (simp add: algebra_simps)
    from s2 rs1 c1 i show ?thesis
      unfolding up by auto
  qed
qed

lemma generateTaskIDsLoop_held:
  assumes "leaseHeld w" and "cursorWithinBlock w"
    and "cursor (ctx w) + int n + rangeSize (ctx w) < 2 ^ 63"
  shows "fst (generateTaskIDsLoop n acc w) =
           Inr (acc @ [cursor (ctx w) .. cursor (ctx w) + int n - 1]) \<and>
         leaseHeld (snd (generateTaskIDsLoop n acc w)) \<and>
         cursorWithinBlock (snd (generateTaskIDsLoop n acc w)) \<and>
         cursor (ctx (snd (generateTaskIDsLoop n acc w))) = cursor (ctx w) + int n \<and>
         rangeSize (ctx (snd (generateTaskIDsLoop n acc w))) = rangeSize (ctx w)"
  using assms
proof (induction n arbitrary: acc w)
  case 0
  then show ?case by simp
next
  case (Suc n)
  from Suc.prems(3) Suc.prems(2) have b1: "cursor (ctx w) + rangeSize (ctx w) < 2 ^ 63"
    by simp
  note s1 = GenerateTaskID_held [OF Suc.prems(1,2) b1]
  obtain w1 where g: "GenerateTaskID w = (Inr (cursor (ctx w)), w1)"
    using s1 by (cases "GenerateTaskID w") simp
  from s1 g have h1: "leaseHeld w1" and inv1: "cursorWithinBlock w1"
    and c1: "cursor (ctx w1) = cursor (ctx w) + 1"
    and rs1: "rangeSize (ctx w1) = rangeSize (ctx w)"
    by simp_all
  from Suc.prems(3) c1 rs1 have b2: "cursor (ctx w1) + int n + rangeSize (ctx w1) < 2 ^ 63"
    by simp
  note s2 = Suc.IH [OF h1 inv1 b2, of "acc @ [cursor (ctx w)]"]
  have up: "[cursor (ctx w) .. cursor (ctx w) + int (Suc n) - 1] =
            cursor (ctx w) # [cursor (ctx w1) .. cursor (ctx w1) + int n - 1]"
    using c1 upto_rec1 [of "cursor (ctx w)" "cursor (ctx w) + int (Suc n) - 1"]
    by (simp add: algebra_simps)
  from s2 g c1 rs1 show ?case
    unfolding up by simp
qed

lemma GenerateTaskIDs_held:
  assumes "leaseHeld w" and "cursorWithinBlock w" and "0 \<le> n"
    and "cursor (ctx w) + n + rangeSize (ctx w) < 2 ^ 63"
  shows "fst (GenerateTaskIDs n w) = Inr [cursor (ctx w) .. cursor (ctx w) + n - 1] \<and>
         leaseHeld (snd (GenerateTaskIDs n w)) \<and>
         cursorWithinBlock (snd (GenerateTaskIDs n w)) \<and>
         cursor (ctx (snd (GenerateTaskIDs n w))) = cursor (ctx w) + n"
proof -
  from assms(1) have e: "errorByState (ctx w) = None"
    by (simp add: leaseHeld_def errorByState_def)
  from assms(3,4) have b: "cursor (ctx w) + int (nat n) + rangeSize (ctx w) < 2 ^ 63"
    by simp
  from generateTaskIDsLoop_held [OF assms(1,2) b, of "[]"] assms(3) e show ?thesis
    by (simp add: GenerateTaskIDs_def)
qed

lemma persistFenced_ctx:
  assumes "persistFenced update cache w = (e, w')"
    and "\<And>c. cursor (cache c) = cursor c \<and> rangeID (cache c) = rangeID c \<and>
              rangeSize (cache c) = rangeSize c"
  shows "cursor (ctx w') = cursor (ctx w) \<and> rangeID (ctx w') = rangeID (ctx w) \<and>
         rangeSize (ctx w') = rangeSize (ctx w)"
  using assms
  by (auto simp: persistFenced_def split: sum.splits shard_error.splits)

lemma SetQueueState_sameBlock: "SetQueueState cat n qs w = (e, w') \<Longrightarrow> sameBlock w w'"
  unfolding sameBlock_def
  by (cases "errorByState (ctx w)")
     (auto simp: SetQueueState_def split: if_splits watermark_policy.splits
           dest!: persistFenced_ctx)

lemma UpdateReplicatorDLQAckLevel_sameBlock:
  "UpdateReplicatorDLQAckLevel cl l w = (e, w') \<Longrightarrow> sameBlock w w'"
  unfolding sameBlock_def
  by (cases "errorByState (ctx w)"; cases "dlqAckLevel (ctx w) cl")
     (auto simp: UpdateReplicatorDLQAckLevel_def split: if_splits dest!: persistFenced_ctx)

lemma UpdateRemoteReaderInfo_sameBlock:
  "UpdateRemoteReaderInfo rd a t w = (e, w') \<Longrightarrow> sameBlock w w'"
  unfolding sameBlock_def
  by (cases "errorByState (ctx w)")
     (auto simp: UpdateRemoteReaderInfo_def Let_def split: if_splits dest!: persistFenced_ctx)

lemma UpdateRemoteClusterInfo_sameBlock: "sameBlock w (UpdateRemoteClusterInfo cl a t w)"
  by (cases "errorByState (ctx w)") (simp_all add: sameBlock_def UpdateRemoteClusterInfo_def)

lemma stop_sameBlock: "sameBlock w (stop w)"
  by (simp add: sameBlock_def stop_def)

lemma sameBlock_inv:
  "sameBlock w w' \<Longrightarrow> cursorWithinBlock w \<Longrightarrow>
     cursorWithinBlock w' \<and> rangeSize (ctx w') = rangeSize (ctx w) \<and>
     cursor (ctx w') = cursor (ctx w)"
  by (simp add: sameBlock_def cursorWithinBlock_def)

lemma requestedBy_nonneg: "0 \<le> requestedBy e"
  by (cases e rule: requestedBy.cases) simp_all

lemma requested_nonneg: "0 \<le> requested es"
  unfolding requested_def
  by (induction es) (simp_all add: requestedBy_nonneg)

lemma requested_Cons: "requested (e # es) = requestedBy e + requested es"
  by (simp add: requested_def)

lemma upto_bounds: "sorted_wrt (<) [i..j] \<and> (\<forall>k\<in>set [i..j]. i \<le> k \<and> k \<le> j)"
  by (simp add: sorted_wrt_upto)

lemma step_issues:
  assumes "cursorWithinBlock w"
    and "cursor (ctx w) + requestedBy e + rangeSize (ctx w) < 2 ^ 63"
    and "step e w = (r, w')"
  shows "cursorWithinBlock w' \<and> rangeSize (ctx w') = rangeSize (ctx w) \<and>
         cursor (ctx w) \<le> cursor (ctx w') \<and>
         cursor (ctx w') \<le> cursor (ctx w) + requestedBy e \<and>
         sorted_wrt (<) (taskIDsOf r) \<and>
         (\<forall>i\<in>set (taskIDsOf r). cursor (ctx w) \<le> i \<and> i < cursor (ctx w'))"
proof (cases e)
  case (Call c)
  show ?thesis
  proof (cases c)
    case CallGenerateTaskID
    obtain r1 w1 where g: "GenerateTaskID w = (r1, w1)" by (cases "GenerateTaskID w")
    from assms(2) Call CallGenerateTaskID have b: "cursor (ctx w) + rangeSize (ctx w) < 2 ^ 63"
      by simp
    from GenerateTaskID_step [OF assms(1) b g] g assms(3) Call CallGenerateTaskID
    show ?thesis by (cases r1) auto
  next
    case (CallGenerateTaskIDs n)
    obtain r1 w1 where g: "generateTaskIDsLoop (nat n) [] w = (r1, w1)"
      by (cases "generateTaskIDsLoop (nat n) [] w")
    from assms(2) Call CallGenerateTaskIDs
    have b: "cursor (ctx w) + int (nat n) + rangeSize (ctx w) < 2 ^ 63"
      and m: "int (nat n) = max 0 n"
      by (auto simp: max_def)
    show ?thesis
    proof (cases "errorByState (ctx w)")
      case (Some err)
      with assms Call CallGenerateTaskIDs show ?thesis
        by (auto simp: GenerateTaskIDs_def)
    next
      case None
      note s = generateTaskIDsLoop_step [OF assms(1) b g]
      show ?thesis
      proof (cases r1)
        case (Inl err)
        with s g assms(3) Call CallGenerateTaskIDs None m show ?thesis
          by (auto simp: GenerateTaskIDs_def)
      next
        case (Inr ids)
        with s have ids: "ids = [cursor (ctx w) .. cursor (ctx w) + int (nat n) - 1]"
          and c: "cursor (ctx w1) = cursor (ctx w) + int (nat n)"
          by simp_all
        from Inr g assms(3) Call CallGenerateTaskIDs None
        have r: "taskIDsOf r = ids" and w': "w' = w1"
          by (auto simp: GenerateTaskIDs_def)
        from s c m upto_bounds [of "cursor (ctx w)" "cursor (ctx w) + int (nat n) - 1"]
        show ?thesis
          unfolding r w' ids Call CallGenerateTaskIDs by auto
      qed
    qed
  next
    case (CallSetQueueState cat n qs)
    obtain e1 w1 where g: "SetQueueState cat n qs w = (e1, w1)"
      by (cases "SetQueueState cat n qs w")
    from sameBlock_inv [OF SetQueueState_sameBlock [OF g] assms(1)] g assms(3) Call CallSetQueueState
    show ?thesis by (auto simp: errorReply_def split: option.splits)
  next
    case (CallUpdateReplicatorDLQAckLevel cl l)
    obtain e1 w1 where g: "UpdateReplicatorDLQAckLevel cl l w = (e1, w1)"
      by (cases "UpdateReplicatorDLQAckLevel cl l w")
    from sameBlock_inv [OF UpdateReplicatorDLQAckLevel_sameBlock [OF g] assms(1)] g assms(3)
      Call CallUpdateReplicatorDLQAckLevel
    show ?thesis by (auto simp: errorReply_def split: option.splits)
  next
    case (CallUpdateRemoteClusterInfo cl a t)
    from sameBlock_inv [OF UpdateRemoteClusterInfo_sameBlock assms(1), of cl a t] assms(3)
      Call CallUpdateRemoteClusterInfo
    show ?thesis by auto
  next
    case (CallUpdateRemoteReaderInfo rd a t)
    obtain e1 w1 where g: "UpdateRemoteReaderInfo rd a t w = (e1, w1)"
      by (cases "UpdateRemoteReaderInfo rd a t w")
    from sameBlock_inv [OF UpdateRemoteReaderInfo_sameBlock [OF g] assms(1)] g assms(3)
      Call CallUpdateRemoteReaderInfo
    show ?thesis by (auto simp: errorReply_def split: option.splits)
  next
    case CallUnloadForOwnershipLost
    from sameBlock_inv [OF stop_sameBlock assms(1)] assms(3) Call CallUnloadForOwnershipLost
    show ?thesis by (auto simp: UnloadForOwnershipLost_def)
  next
    case CallFinishStop
    from sameBlock_inv [OF stop_sameBlock assms(1)] assms(3) Call CallFinishStop
    show ?thesis by (auto simp: FinishStop_def)
  qed
next
  case (CompetingAcquire other)
  with assms show ?thesis
    by (auto simp: cursorWithinBlock_def UnloadForOwnershipLost_def stop_def)
next
  case StorageDown
  with assms show ?thesis by (auto simp: cursorWithinBlock_def)
next
  case StorageUp
  with assms show ?thesis by (auto simp: cursorWithinBlock_def)
qed

lemma run_issues:
  "cursorWithinBlock w \<Longrightarrow> cursor (ctx w) + requested es + rangeSize (ctx w) < 2 ^ 63 \<Longrightarrow>
     sorted_wrt (<) (issuedTaskIDs es w) \<and>
     (\<forall>i\<in>set (issuedTaskIDs es w). cursor (ctx w) \<le> i \<and> i < cursor (ctx w) + requested es)"
proof (induction es arbitrary: w)
  case Nil
  then show ?case by (simp add: issuedTaskIDs_def)
next
  case (Cons e es)
  obtain r w1 where s: "step e w = (r, w1)" by (cases "step e w")
  from Cons.prems(2) requested_nonneg [of es]
  have b1: "cursor (ctx w) + requestedBy e + rangeSize (ctx w) < 2 ^ 63"
    by (simp add: requested_Cons)
  note s1 = step_issues [OF Cons.prems(1) b1 s]
  then have inv1: "cursorWithinBlock w1" by simp
  from s1 Cons.prems(2) have b2: "cursor (ctx w1) + requested es + rangeSize (ctx w1) < 2 ^ 63"
    by (simp add: requested_Cons)
  note s2 = Cons.IH [OF inv1 b2]
  have iss: "issuedTaskIDs (e # es) w = taskIDsOf r @ issuedTaskIDs es w1"
    using s by (simp add: issuedTaskIDs_def split: prod.splits)
  from s1 have le: "cursor (ctx w1) \<le> cursor (ctx w) + requestedBy e"
    and ge: "cursor (ctx w) \<le> cursor (ctx w1)" by simp_all
  show ?case
    unfolding iss sorted_wrt_append requested_Cons
    using s1 s2 le ge requested_nonneg [of es] by fastforce
qed

lemma strictly_increasing:
  assumes "cursorWithinBlock w" and "cursor (ctx w) + requested es + rangeSize (ctx w) < 2 ^ 63"
  shows "sorted_wrt (<) (issuedTaskIDs es w) \<and> distinct (issuedTaskIDs es w) \<and>
     (\<forall>i\<in>set (issuedTaskIDs es w). cursor (ctx w) \<le> i \<and> i < cursor (ctx w) + requested es)"
  using run_issues [OF assms] strict_sorted_iff [of "issuedTaskIDs es w"]
  by simp

lemma acquireShard_cursorWithinBlock:
  assumes "0 < rsize" and "0 \<le> rec_rangeID (shard st)"
    and "(rec_rangeID (shard st) + 1) * rsize + rsize < 2 ^ 63"
  shows "cursorWithinBlock (snd (acquireShard sid own rsize policy st)) \<and>
         rangeSize (ctx (snd (acquireShard sid own rsize policy st))) = rsize \<and>
         cursor (ctx (snd (acquireShard sid own rsize policy st))) \<le>
           (rec_rangeID (shard st) + 1) * rsize"
proof -
  note b = block_bounds [OF assms(2,1)]
  from b assms have c0: "int64 (rec_rangeID (shard st) * rsize) = rec_rangeID (shard st) * rsize"
    by (intro int64_id) linarith+
  have inv0: "cursorWithinBlock \<lparr>ctx = newContext sid own rsize policy st, store = st\<rparr>"
    using assms b by (simp add: cursorWithinBlock_def newContext_def c0)
  have b0: "cursor (ctx \<lparr>ctx = newContext sid own rsize policy st, store = st\<rparr>) +
            rangeSize (ctx \<lparr>ctx = newContext sid own rsize policy st, store = st\<rparr>) < 2 ^ 63"
    using assms b by (simp add: newContext_def c0)
  show ?thesis
    unfolding acquireShard_def AcquireOrRenew_no_overflow [OF inv0 b0]
    using assms b
    by (simp add: newContext_def fencedWrite_def cursorWithinBlock_def c0)
qed

lemma acquireShard_held:
  assumes "available st" and "0 < rsize" and "0 \<le> rec_rangeID (shard st)"
    and "(rec_rangeID (shard st) + 1) * rsize + rsize < 2 ^ 63"
  shows "fst (acquireShard sid own rsize policy st) = Inr (rec_rangeID (shard st) + 1) \<and>
         leaseHeld (snd (acquireShard sid own rsize policy st)) \<and>
         cursor (ctx (snd (acquireShard sid own rsize policy st))) =
           (rec_rangeID (shard st) + 1) * rsize \<and>
         rec_rangeID (shard (store (snd (acquireShard sid own rsize policy st)))) =
           rec_rangeID (shard st) + 1"
proof -
  note b = block_bounds [OF assms(3,2)]
  from b assms have c0: "int64 (rec_rangeID (shard st) * rsize) = rec_rangeID (shard st) * rsize"
    by (intro int64_id) linarith+
  have inv0: "cursorWithinBlock \<lparr>ctx = newContext sid own rsize policy st, store = st\<rparr>"
    using assms b by (simp add: cursorWithinBlock_def newContext_def c0)
  have b0: "cursor (ctx \<lparr>ctx = newContext sid own rsize policy st, store = st\<rparr>) +
            rangeSize (ctx \<lparr>ctx = newContext sid own rsize policy st, store = st\<rparr>) < 2 ^ 63"
    using assms b by (simp add: newContext_def c0)
  show ?thesis
    unfolding acquireShard_def AcquireOrRenew_no_overflow [OF inv0 b0]
    using assms b
    by (simp add: newContext_def fencedWrite_def leaseHeld_def)
qed

text \<open>
  C1. Task IDs are \<^verbatim>\<open>int64\<close>. Over every sequence of events on one shard Context (calls
  of GenerateTaskID and GenerateTaskIDs, any other call, competing acquisitions, the
  storage engine going down and up), started where the cursor lies within the owned
  block, and in particular started right after acquisition with a positive range size,
  the concatenation of all task IDs returned is strictly increasing and has no repeated
  value, provided that the IDs asked for and one more block fit below \<open>2 ^ 63\<close>; range
  renewals happen within and between the calls. The IDs lie between the cursor at the
  start and that cursor plus the number of IDs asked for. A Context that holds the lease
  does return IDs: acquisition on a reachable storage engine succeeds with the persisted
  range ID plus one and starts the cursor at the bottom of the new block; GenerateTaskID
  returns the cursor, and GenerateTaskIDs the next \<open>n\<close> consecutive integers from the
  cursor, renewing the range on the way when the block is exhausted, and the Context
  holds the lease afterwards.
\<close>

theorem task_ids_strictly_increasing:
  "(cursorWithinBlock w \<and> cursor (ctx w) + requested es + rangeSize (ctx w) < 2 ^ 63 \<longrightarrow>
      sorted_wrt (<) (issuedTaskIDs es w) \<and> distinct (issuedTaskIDs es w) \<and>
      (\<forall>i\<in>set (issuedTaskIDs es w). cursor (ctx w) \<le> i \<and> i < cursor (ctx w) + requested es))
   \<and> (0 < rsize \<and> 0 \<le> rec_rangeID (shard st) \<and>
      (rec_rangeID (shard st) + 1) * rsize + requested es + rsize < 2 ^ 63 \<longrightarrow>
        sorted_wrt (<) (issuedTaskIDs es (snd (acquireShard sid own rsize policy st))) \<and>
        distinct (issuedTaskIDs es (snd (acquireShard sid own rsize policy st))))
   \<and> (available st \<and> 0 < rsize \<and> 0 \<le> rec_rangeID (shard st) \<and>
      (rec_rangeID (shard st) + 1) * rsize + rsize < 2 ^ 63 \<longrightarrow>
        fst (acquireShard sid own rsize policy st) = Inr (rec_rangeID (shard st) + 1) \<and>
        leaseHeld (snd (acquireShard sid own rsize policy st)) \<and>
        cursorWithinBlock (snd (acquireShard sid own rsize policy st)) \<and>
        cursor (ctx (snd (acquireShard sid own rsize policy st))) =
          (rec_rangeID (shard st) + 1) * rsize)
   \<and> (leaseHeld w \<and> cursorWithinBlock w \<and> cursor (ctx w) + rangeSize (ctx w) < 2 ^ 63 \<longrightarrow>
        fst (GenerateTaskID w) = Inr (cursor (ctx w)) \<and>
        leaseHeld (snd (GenerateTaskID w)) \<and> cursorWithinBlock (snd (GenerateTaskID w)) \<and>
        cursor (ctx (snd (GenerateTaskID w))) = cursor (ctx w) + 1)
   \<and> (leaseHeld w \<and> cursorWithinBlock w \<and> 0 \<le> n \<and>
      cursor (ctx w) + n + rangeSize (ctx w) < 2 ^ 63 \<longrightarrow>
        fst (GenerateTaskIDs n w) = Inr [cursor (ctx w) .. cursor (ctx w) + n - 1] \<and>
        leaseHeld (snd (GenerateTaskIDs n w)) \<and> cursorWithinBlock (snd (GenerateTaskIDs n w)) \<and>
        cursor (ctx (snd (GenerateTaskIDs n w))) = cursor (ctx w) + n)"
proof (intro conjI impI; (elim conjE)?)
  assume "cursorWithinBlock w" and "cursor (ctx w) + requested es + rangeSize (ctx w) < 2 ^ 63"
  then show "sorted_wrt (<) (issuedTaskIDs es w)" and "distinct (issuedTaskIDs es w)"
    and "\<forall>i\<in>set (issuedTaskIDs es w). cursor (ctx w) \<le> i \<and> i < cursor (ctx w) + requested es"
    using strictly_increasing [of w es] by simp_all
next
  assume a: "0 < rsize" "0 \<le> rec_rangeID (shard st)"
    "(rec_rangeID (shard st) + 1) * rsize + requested es + rsize < 2 ^ 63"
  from a requested_nonneg [of es] have b: "(rec_rangeID (shard st) + 1) * rsize + rsize < 2 ^ 63"
    by simp
  note i = acquireShard_cursorWithinBlock [OF a(1,2) b, of sid own policy]
  from i a(3) have "cursor (ctx (snd (acquireShard sid own rsize policy st))) + requested es +
      rangeSize (ctx (snd (acquireShard sid own rsize policy st))) < 2 ^ 63"
    by simp
  with i strictly_increasing [of "snd (acquireShard sid own rsize policy st)" es]
  show "sorted_wrt (<) (issuedTaskIDs es (snd (acquireShard sid own rsize policy st)))"
    and "distinct (issuedTaskIDs es (snd (acquireShard sid own rsize policy st)))"
    by simp_all
next
  assume a: "available st" "0 < rsize" "0 \<le> rec_rangeID (shard st)"
    "(rec_rangeID (shard st) + 1) * rsize + rsize < 2 ^ 63"
  from acquireShard_held [OF a, of sid own policy]
    acquireShard_cursorWithinBlock [OF a(2,3,4), of sid own policy]
  show "fst (acquireShard sid own rsize policy st) = Inr (rec_rangeID (shard st) + 1)"
    and "leaseHeld (snd (acquireShard sid own rsize policy st))"
    and "cursorWithinBlock (snd (acquireShard sid own rsize policy st))"
    and "cursor (ctx (snd (acquireShard sid own rsize policy st))) =
          (rec_rangeID (shard st) + 1) * rsize"
    by simp_all
next
  assume a: "leaseHeld w" "cursorWithinBlock w" "cursor (ctx w) + rangeSize (ctx w) < 2 ^ 63"
  from GenerateTaskID_held [OF a]
  show "fst (GenerateTaskID w) = Inr (cursor (ctx w))"
    and "leaseHeld (snd (GenerateTaskID w))" and "cursorWithinBlock (snd (GenerateTaskID w))"
    and "cursor (ctx (snd (GenerateTaskID w))) = cursor (ctx w) + 1"
    by simp_all
next
  assume a: "leaseHeld w" "cursorWithinBlock w" "0 \<le> n"
    "cursor (ctx w) + n + rangeSize (ctx w) < 2 ^ 63"
  from GenerateTaskIDs_held [OF a]
  show "fst (GenerateTaskIDs n w) = Inr [cursor (ctx w) .. cursor (ctx w) + n - 1]"
    and "leaseHeld (snd (GenerateTaskIDs n w))" and "cursorWithinBlock (snd (GenerateTaskIDs n w))"
    and "cursor (ctx (snd (GenerateTaskIDs n w))) = cursor (ctx w) + n"
    by simp_all
qed

text \<open>
  With range size 2 the block after acquisition is \<open>[8, 10)\<close>: three IDs in one call
  cross a renewal (8, 9, 10), the next call returns 11; after a competing acquisition no
  further ID is returned.
\<close>

theorem task_ids_strictly_increasing_witness:
  "cursorWithinBlock (acquiredWorld 2) \<and> leaseHeld (acquiredWorld 2)
   \<and> issuedTaskIDs
        [Call (CallGenerateTaskIDs 3), Call CallGenerateTaskID, CompetingAcquire ''competitor'',
         Call CallGenerateTaskID] (acquiredWorld 2) = [8, 9, 10, 11]
   \<and> sorted_wrt (<)
        (issuedTaskIDs
          [Call (CallGenerateTaskIDs 3), Call CallGenerateTaskID, CompetingAcquire ''competitor'',
           Call CallGenerateTaskID] (acquiredWorld 2))
   \<and> distinct
        (issuedTaskIDs
          [Call (CallGenerateTaskIDs 3), Call CallGenerateTaskID, CompetingAcquire ''competitor'',
           Call CallGenerateTaskID] (acquiredWorld 2))
   \<and> fst (acquireShard 7 ''original'' 2 RejectLower sampleStorage) = Inr 4
   \<and> fst (GenerateTaskID (acquiredWorld 2)) = Inr 8
   \<and> fst (GenerateTaskIDs 3 (acquiredWorld 2)) = Inr [8, 9, 10]"
proof -
  have inv: "cursorWithinBlock (acquiredWorld 2)" and held: "leaseHeld (acquiredWorld 2)"
    and c: "cursor (ctx (acquiredWorld 2)) = 8" and rs: "rangeSize (ctx (acquiredWorld 2)) = 2"
    and st: "available sampleStorage" "rec_rangeID (shard sampleStorage) = 3"
    by (simp_all add: shard_eval)
  have rq: "requested [Call (CallGenerateTaskIDs 3), Call CallGenerateTaskID,
      CompetingAcquire ''competitor'', Call CallGenerateTaskID] = 5"
    by (simp add: requested_def)
  have ids: "issuedTaskIDs
        [Call (CallGenerateTaskIDs 3), Call CallGenerateTaskID, CompetingAcquire ''competitor'',
         Call CallGenerateTaskID] (acquiredWorld 2) = [8, 9, 10, 11]"
    by (simp add: shard_eval)
  have up: "[8 .. 10] = [8, 9, 10::int]"
    by (simp add: upto_rec1)
  from task_ids_strictly_increasing [of "acquiredWorld 2"
      "[Call (CallGenerateTaskIDs 3), Call CallGenerateTaskID, CompetingAcquire ''competitor'',
        Call CallGenerateTaskID]" 2 sampleStorage 7 "''original''" RejectLower 3]
    inv held c rs st rq ids up
  show ?thesis
    by simp
qed

text \<open>
  The bound is needed. With range size 2 and the block \<open>[2 ^ 63 - 4, 2 ^ 63 - 2)\<close>, four
  IDs cross two renewals; the second renewal computes the start of its block as
  \<open>2 ^ 63\<close>, which an \<^verbatim>\<open>int64\<close> holds as \<open>- 2 ^ 63\<close>.
\<close>

lemma generator_wraps_beyond_int64:
  "issuedTaskIDs [Call (CallGenerateTaskIDs 4)] lastBlockWorld =
     [9223372036854775804, 9223372036854775805, 9223372036854775806, - 9223372036854775808]
   \<and> cursorWithinBlock lastBlockWorld \<and> leaseHeld lastBlockWorld
   \<and> \<not> cursor (ctx lastBlockWorld) + requested [Call (CallGenerateTaskIDs 4)] +
         rangeSize (ctx lastBlockWorld) < 2 ^ 63"
  by (simp add: lastBlockWorld_def shard_eval)

subsection \<open>Replication acknowledgements\<close>

lemma mergeAck_idem: "mergeAck (Some (mergeAck r a t)) a t = mergeAck r a t"
  by (cases r) (auto simp: mergeAck_def)

lemma mergeAck_mono: "a0 \<le> fst (mergeAck (Some (a0, t0)) a t) \<and> t0 \<le> snd (mergeAck (Some (a0, t0)) a t)"
  by (simp add: mergeAck_def)

lemma mergeAck_stale: "a \<le> a0 \<Longrightarrow> t \<le> t0 \<Longrightarrow> mergeAck (Some (a0, t0)) a t = (a0, t0)"
  by (auto simp: mergeAck_def)

lemma mergeAck_stale_level: "a < a0 \<Longrightarrow> fst (mergeAck (Some (a0, t0)) a t) = a0"
  by (simp add: mergeAck_def)

lemma URCI_idem:
  "UpdateRemoteClusterInfo cl a t (UpdateRemoteClusterInfo cl a t w) = UpdateRemoteClusterInfo cl a t w"
  by (cases "errorByState (ctx w)")
     (simp_all add: UpdateRemoteClusterInfo_def errorByState_def mergeAck_idem)

lemma URCI_mono: "notBelow (clusterAck w cl) (clusterAck (UpdateRemoteClusterInfo cl a t w) cl)"
  by (cases "errorByState (ctx w)"; cases "remoteClusterInfo (ctx w) cl")
     (auto simp: UpdateRemoteClusterInfo_def clusterAck_def mergeAck_def)

lemma URCI_stale:
  "remoteClusterInfo (ctx w) cl = Some (a0, t0) \<Longrightarrow> a \<le> a0 \<Longrightarrow> t \<le> t0 \<Longrightarrow>
     UpdateRemoteClusterInfo cl a t w = w"
  by (cases "errorByState (ctx w)")
     (simp_all add: UpdateRemoteClusterInfo_def mergeAck_stale map_upd_triv)

lemma URCI_stale_level:
  "clusterAck w cl = Some a0 \<Longrightarrow> a < a0 \<Longrightarrow>
     clusterAck (UpdateRemoteClusterInfo cl a t w) cl = Some a0"
  by (cases "errorByState (ctx w)"; cases "remoteClusterInfo (ctx w) cl")
     (auto simp: UpdateRemoteClusterInfo_def clusterAck_def mergeAck_def)

lemma URCI_other:
  "cl' \<noteq> cl \<Longrightarrow> clusterAck (UpdateRemoteClusterInfo cl a t w) cl' = clusterAck w cl'"
  by (cases "errorByState (ctx w)") (simp_all add: UpdateRemoteClusterInfo_def clusterAck_def)

lemma URCI_applied:
  "state (ctx w) = Active \<Longrightarrow> notBelow (clusterAck w cl) (Some a) \<Longrightarrow>
     clusterAck (UpdateRemoteClusterInfo cl a t w) cl = Some a \<and>
     state (ctx (UpdateRemoteClusterInfo cl a t w)) = Active"
  by (cases "remoteClusterInfo (ctx w) cl")
     (auto simp: UpdateRemoteClusterInfo_def clusterAck_def mergeAck_def errorByState_def)

lemma URCI_5_then_3:
  assumes "state (ctx w) = Active" and "notBelow (clusterAck w cl) (Some 5)"
  shows "clusterAck (UpdateRemoteClusterInfo cl 3 t' (UpdateRemoteClusterInfo cl 5 t w)) cl = Some 5"
  using URCI_applied [OF assms, of t] URCI_stale_level [of "UpdateRemoteClusterInfo cl 5 t w" cl 5 3 t']
  by simp

lemma persistFenced_cases:
  "persistFenced update cache w = (e, w') \<Longrightarrow>
     (e = Some OwnershipLost \<and> w' = w\<lparr>ctx := (ctx w)\<lparr>state := Invalid\<rparr>\<rparr> \<and> available (store w) \<and>
        rec_rangeID (shard (store w)) \<noteq> rangeID (ctx w)) \<or>
     (e = Some Transient \<and> w' = w \<and> \<not> available (store w)) \<or>
     (e = None \<and> w' = \<lparr>ctx = cache (ctx w), store = (store w)\<lparr>shard := update (shard (store w))\<rparr>\<rparr> \<and>
        available (store w) \<and> rec_rangeID (shard (store w)) = rangeID (ctx w))"
  by (auto simp: persistFenced_def fencedWrite_def split: if_splits)

lemma DLQ_cases:
  "UpdateReplicatorDLQAckLevel cl l w = (e, w') \<Longrightarrow>
     (e \<noteq> None \<and> dlqAck w' cl = dlqAck w cl \<and> store w' = store w \<and>
        (w' = w \<or> w' = w\<lparr>ctx := (ctx w)\<lparr>state := Invalid\<rparr>\<rparr>)) \<or>
     (e = None \<and> w' = w \<and> (\<exists>l0. dlqAck w cl = Some l0 \<and> l < l0)) \<or>
     (e = None \<and> state (ctx w) = Active \<and> notBelow (dlqAck w cl) (Some l) \<and>
        available (store w) \<and> rec_rangeID (shard (store w)) = rangeID (ctx w) \<and>
        w' = \<lparr>ctx = (ctx w)\<lparr>dlqAckLevel := (dlqAckLevel (ctx w))(cl \<mapsto> l)\<rparr>,
              store = (store w)\<lparr>shard := (shard (store w))
                \<lparr>rec_dlqAckLevel := (rec_dlqAckLevel (shard (store w)))(cl \<mapsto> l)\<rparr>\<rparr>\<rparr>)"
  apply (cases "state (ctx w)"; cases "dlqAckLevel (ctx w) cl")
         apply (auto simp: UpdateReplicatorDLQAckLevel_def errorByState_def dlqAck_def
      split: if_splits dest!: persistFenced_cases)
  done

lemma DLQ_mono:
  "notBelow (dlqAck w cl) (dlqAck (snd (UpdateReplicatorDLQAckLevel cl l w)) cl)"
proof -
  obtain e w' where u: "UpdateReplicatorDLQAckLevel cl l w = (e, w')"
    by (cases "UpdateReplicatorDLQAckLevel cl l w")
  have refl: "notBelow (dlqAck w cl) (dlqAck w cl)"
    by (cases "dlqAck w cl") simp_all
  from DLQ_cases [OF u] refl u show ?thesis
    by (auto simp: dlqAck_def)
qed

lemma DLQ_stale:
  "state (ctx w) = Active \<Longrightarrow> dlqAck w cl = Some l0 \<Longrightarrow> l < l0 \<Longrightarrow>
     UpdateReplicatorDLQAckLevel cl l w = (None, w)"
  by (simp add: UpdateReplicatorDLQAckLevel_def errorByState_def dlqAck_def)

lemma DLQ_applied_again:
  assumes "state (ctx w) = Active" "available (store w)"
    "rec_rangeID (shard (store w)) = rangeID (ctx w)"
  shows "UpdateReplicatorDLQAckLevel cl l
           \<lparr>ctx = (ctx w)\<lparr>dlqAckLevel := (dlqAckLevel (ctx w))(cl \<mapsto> l)\<rparr>,
            store = (store w)\<lparr>shard := (shard (store w))
              \<lparr>rec_dlqAckLevel := (rec_dlqAckLevel (shard (store w)))(cl \<mapsto> l)\<rparr>\<rparr>\<rparr> =
         (None,
          \<lparr>ctx = (ctx w)\<lparr>dlqAckLevel := (dlqAckLevel (ctx w))(cl \<mapsto> l)\<rparr>,
            store = (store w)\<lparr>shard := (shard (store w))
              \<lparr>rec_dlqAckLevel := (rec_dlqAckLevel (shard (store w)))(cl \<mapsto> l)\<rparr>\<rparr>\<rparr>)"
  using assms
  by (simp add: UpdateReplicatorDLQAckLevel_def errorByState_def persistFenced_def fencedWrite_def)

lemma DLQ_idem:
  "snd (UpdateReplicatorDLQAckLevel cl l (snd (UpdateReplicatorDLQAckLevel cl l w))) =
     snd (UpdateReplicatorDLQAckLevel cl l w)"
proof -
  obtain e w' where u: "UpdateReplicatorDLQAckLevel cl l w = (e, w')"
    by (cases "UpdateReplicatorDLQAckLevel cl l w")
  from DLQ_cases [OF u] consider
      (same) "w' = w"
    | (lost) "w' = w\<lparr>ctx := (ctx w)\<lparr>state := Invalid\<rparr>\<rparr>"
    | (applied) "state (ctx w) = Active" "available (store w)"
        "rec_rangeID (shard (store w)) = rangeID (ctx w)"
        "w' = \<lparr>ctx = (ctx w)\<lparr>dlqAckLevel := (dlqAckLevel (ctx w))(cl \<mapsto> l)\<rparr>,
              store = (store w)\<lparr>shard := (shard (store w))
                \<lparr>rec_dlqAckLevel := (rec_dlqAckLevel (shard (store w)))(cl \<mapsto> l)\<rparr>\<rparr>\<rparr>"
    by blast
  then show ?thesis
  proof cases
    case same
    with u show ?thesis by simp
  next
    case lost
    with u show ?thesis
      by (simp add: UpdateReplicatorDLQAckLevel_def errorByState_def)
  next
    case applied
    with u DLQ_applied_again [of w cl l] show ?thesis by simp
  qed
qed

lemma DLQ_5_then_3:
  assumes "fst (UpdateReplicatorDLQAckLevel cl 5 w) = None" and "notBelow (dlqAck w cl) (Some 5)"
  shows "dlqAck (snd (UpdateReplicatorDLQAckLevel cl 5 w)) cl = Some 5 \<and>
         UpdateReplicatorDLQAckLevel cl 3 (snd (UpdateReplicatorDLQAckLevel cl 5 w)) =
           (None, snd (UpdateReplicatorDLQAckLevel cl 5 w))"
proof -
  obtain e w' where u: "UpdateReplicatorDLQAckLevel cl 5 w = (e, w')"
    by (cases "UpdateReplicatorDLQAckLevel cl 5 w")
  with assms(1) have e: "e = None" by simp
  from DLQ_cases [OF u] e assms(2)
  have a: "state (ctx w') = Active \<and> dlqAck w' cl = Some 5"
    by (auto simp: dlqAck_def)
  with u DLQ_stale [of w' cl 5 3] show ?thesis by simp
qed

lemma RD_cases:
  "UpdateRemoteReaderInfo rd a t w = (e, w') \<Longrightarrow>
     (e \<noteq> None \<and> remoteReaderInfo (ctx w') rd = remoteReaderInfo (ctx w) rd \<and> store w' = store w \<and>
        (w' = w \<or> w' = w\<lparr>ctx := (ctx w)\<lparr>state := Invalid\<rparr>\<rparr>)) \<or>
     (e = None \<and> w' = w \<and>
        remoteReaderInfo (ctx w) rd = Some (mergeAck (remoteReaderInfo (ctx w) rd) a t)) \<or>
     (e = None \<and> state (ctx w) = Active \<and>
        available (store w) \<and> rec_rangeID (shard (store w)) = rangeID (ctx w) \<and>
        w' = \<lparr>ctx = (ctx w)\<lparr>remoteReaderInfo := (remoteReaderInfo (ctx w))
                      (rd \<mapsto> mergeAck (remoteReaderInfo (ctx w) rd) a t)\<rparr>,
              store = (store w)\<lparr>shard := (shard (store w))
                \<lparr>rec_readerInfo := (rec_readerInfo (shard (store w)))
                      (rd \<mapsto> mergeAck (remoteReaderInfo (ctx w) rd) a t)\<rparr>\<rparr>\<rparr>)"
  apply (cases "state (ctx w)")
     apply (auto simp: UpdateRemoteReaderInfo_def errorByState_def Let_def
      split: if_splits dest!: persistFenced_cases)
  done

lemma notBelow_mergeAck: "notBelow (map_option fst r) (Some (fst (mergeAck r a t)))"
  by (cases r) (auto simp: mergeAck_def)

lemma RD_mono: "notBelow (readerAck w rd) (readerAck (snd (UpdateRemoteReaderInfo rd a t w)) rd)"
proof -
  obtain e w' where u: "UpdateRemoteReaderInfo rd a t w = (e, w')"
    by (cases "UpdateRemoteReaderInfo rd a t w")
  have refl: "notBelow (readerAck w rd) (readerAck w rd)"
    by (cases "readerAck w rd") simp_all
  from RD_cases [OF u] refl u notBelow_mergeAck [of "remoteReaderInfo (ctx w) rd" a t]
  show ?thesis
    by (auto simp: readerAck_def)
qed

lemma RD_stale:
  "state (ctx w) = Active \<Longrightarrow> remoteReaderInfo (ctx w) rd = Some (a0, t0) \<Longrightarrow> a \<le> a0 \<Longrightarrow> t \<le> t0 \<Longrightarrow>
     UpdateRemoteReaderInfo rd a t w = (None, w)"
  by (simp add: UpdateRemoteReaderInfo_def errorByState_def mergeAck_stale)

lemma RD_stale_level:
  assumes "readerAck w rd = Some a0" and "a < a0"
  shows "readerAck (snd (UpdateRemoteReaderInfo rd a t w)) rd = Some a0"
proof -
  obtain e w' where u: "UpdateRemoteReaderInfo rd a t w = (e, w')"
    by (cases "UpdateRemoteReaderInfo rd a t w")
  from assms(1) obtain t0 where r: "remoteReaderInfo (ctx w) rd = Some (a0, t0)"
    by (auto simp: readerAck_def)
  from RD_cases [OF u] u r assms show ?thesis
    by (auto simp: readerAck_def mergeAck_def)
qed

lemma RD_applied_again:
  assumes "state (ctx w) = Active" "available (store w)"
    "rec_rangeID (shard (store w)) = rangeID (ctx w)"
  shows "UpdateRemoteReaderInfo rd a t
           \<lparr>ctx = (ctx w)\<lparr>remoteReaderInfo := (remoteReaderInfo (ctx w))
                      (rd \<mapsto> mergeAck (remoteReaderInfo (ctx w) rd) a t)\<rparr>,
              store = (store w)\<lparr>shard := (shard (store w))
                \<lparr>rec_readerInfo := (rec_readerInfo (shard (store w)))
                      (rd \<mapsto> mergeAck (remoteReaderInfo (ctx w) rd) a t)\<rparr>\<rparr>\<rparr> =
         (None,
          \<lparr>ctx = (ctx w)\<lparr>remoteReaderInfo := (remoteReaderInfo (ctx w))
                      (rd \<mapsto> mergeAck (remoteReaderInfo (ctx w) rd) a t)\<rparr>,
              store = (store w)\<lparr>shard := (shard (store w))
                \<lparr>rec_readerInfo := (rec_readerInfo (shard (store w)))
                      (rd \<mapsto> mergeAck (remoteReaderInfo (ctx w) rd) a t)\<rparr>\<rparr>\<rparr>)"
  using assms
  by (simp add: UpdateRemoteReaderInfo_def errorByState_def mergeAck_idem Let_def)

lemma RD_idem:
  "snd (UpdateRemoteReaderInfo rd a t (snd (UpdateRemoteReaderInfo rd a t w))) =
     snd (UpdateRemoteReaderInfo rd a t w)"
proof -
  obtain e w' where u: "UpdateRemoteReaderInfo rd a t w = (e, w')"
    by (cases "UpdateRemoteReaderInfo rd a t w")
  from RD_cases [OF u] consider
      (same) "w' = w"
    | (lost) "w' = w\<lparr>ctx := (ctx w)\<lparr>state := Invalid\<rparr>\<rparr>"
    | (applied) "state (ctx w) = Active" "available (store w)"
        "rec_rangeID (shard (store w)) = rangeID (ctx w)"
        "w' = \<lparr>ctx = (ctx w)\<lparr>remoteReaderInfo := (remoteReaderInfo (ctx w))
                      (rd \<mapsto> mergeAck (remoteReaderInfo (ctx w) rd) a t)\<rparr>,
              store = (store w)\<lparr>shard := (shard (store w))
                \<lparr>rec_readerInfo := (rec_readerInfo (shard (store w)))
                      (rd \<mapsto> mergeAck (remoteReaderInfo (ctx w) rd) a t)\<rparr>\<rparr>\<rparr>"
    by blast
  then show ?thesis
  proof cases
    case same
    with u show ?thesis by simp
  next
    case lost
    with u show ?thesis
      by (simp add: UpdateRemoteReaderInfo_def errorByState_def)
  next
    case applied
    with u RD_applied_again [of w rd a t] show ?thesis by simp
  qed
qed

text \<open>
  C5. UpdateRemoteClusterInfo, UpdateReplicatorDLQAckLevel and UpdateRemoteReaderInfo are
  monotone and idempotent for each cluster or reader: the recorded level after an update
  is not below the one before; applying the same update twice leaves what applying it
  once leaves; an update whose level is lower than the recorded one leaves the recorded
  level, and a stale update (nothing in it is higher than what is recorded) leaves
  everything as it is; applying level 5 and then level 3 for the same cluster leaves the
  recorded level at 5.
\<close>

theorem replication_acks_monotone:
  "notBelow (clusterAck w cl) (clusterAck (UpdateRemoteClusterInfo cl a t w) cl)
   \<and> UpdateRemoteClusterInfo cl a t (UpdateRemoteClusterInfo cl a t w) =
       UpdateRemoteClusterInfo cl a t w
   \<and> (clusterAck w cl = Some a0 \<and> a < a0 \<longrightarrow>
        clusterAck (UpdateRemoteClusterInfo cl a t w) cl = Some a0)
   \<and> (remoteClusterInfo (ctx w) cl = Some (a0, t0) \<and> a \<le> a0 \<and> t \<le> t0 \<longrightarrow>
        UpdateRemoteClusterInfo cl a t w = w)
   \<and> (state (ctx w) = Active \<and> notBelow (clusterAck w cl) (Some 5) \<longrightarrow>
        clusterAck (UpdateRemoteClusterInfo cl 3 t' (UpdateRemoteClusterInfo cl 5 t w)) cl = Some 5)
   \<and> notBelow (dlqAck w cl) (dlqAck (snd (UpdateReplicatorDLQAckLevel cl a w)) cl)
   \<and> snd (UpdateReplicatorDLQAckLevel cl a (snd (UpdateReplicatorDLQAckLevel cl a w))) =
       snd (UpdateReplicatorDLQAckLevel cl a w)
   \<and> (state (ctx w) = Active \<and> dlqAck w cl = Some a0 \<and> a < a0 \<longrightarrow>
        UpdateReplicatorDLQAckLevel cl a w = (None, w))
   \<and> (fst (UpdateReplicatorDLQAckLevel cl 5 w) = None \<and> notBelow (dlqAck w cl) (Some 5) \<longrightarrow>
        dlqAck (snd (UpdateReplicatorDLQAckLevel cl 5 w)) cl = Some 5 \<and>
        UpdateReplicatorDLQAckLevel cl 3 (snd (UpdateReplicatorDLQAckLevel cl 5 w)) =
          (None, snd (UpdateReplicatorDLQAckLevel cl 5 w)))
   \<and> notBelow (readerAck w rd) (readerAck (snd (UpdateRemoteReaderInfo rd a t w)) rd)
   \<and> snd (UpdateRemoteReaderInfo rd a t (snd (UpdateRemoteReaderInfo rd a t w))) =
       snd (UpdateRemoteReaderInfo rd a t w)
   \<and> (readerAck w rd = Some a0 \<and> a < a0 \<longrightarrow>
        readerAck (snd (UpdateRemoteReaderInfo rd a t w)) rd = Some a0)
   \<and> (state (ctx w) = Active \<and> remoteReaderInfo (ctx w) rd = Some (a0, t0) \<and> a \<le> a0 \<and> t \<le> t0 \<longrightarrow>
        UpdateRemoteReaderInfo rd a t w = (None, w))"
  using URCI_mono [of w cl a t] URCI_idem [of cl a t w] URCI_stale_level [of w cl a0 a t]
    URCI_stale [of w cl a0 t0 a t] URCI_5_then_3 [of w cl t' t]
    DLQ_mono [of w cl a] DLQ_idem [of cl a w] DLQ_stale [of w cl a0 a] DLQ_5_then_3 [of cl w]
    RD_mono [of w rd a t] RD_idem [of rd a t w] RD_stale_level [of w rd a0 a t]
    RD_stale [of w rd a0 t0 a t]
  by blast

text \<open>
  On the freshly acquired Context of the scenario, level 5 and then level 3 for
  \<open>clusterB\<close> leave 5 recorded; once level 5 at time 10 is recorded, an update with
  level 3 at time 7 changes nothing in any of the three methods, and an update with level
  3 at a later time leaves level 5.
\<close>

theorem replication_acks_monotone_witness:
  "clusterAck (UpdateRemoteClusterInfo ''clusterB'' 3 20
      (UpdateRemoteClusterInfo ''clusterB'' 5 10 (acquiredWorld 1000))) ''clusterB'' = Some 5
   \<and> dlqAck (snd (UpdateReplicatorDLQAckLevel ''clusterB'' 5 (acquiredWorld 1000))) ''clusterB'' = Some 5
   \<and> UpdateReplicatorDLQAckLevel ''clusterB'' 3
        (snd (UpdateReplicatorDLQAckLevel ''clusterB'' 5 (acquiredWorld 1000))) =
       (None, snd (UpdateReplicatorDLQAckLevel ''clusterB'' 5 (acquiredWorld 1000)))
   \<and> clusterAck ackedWorld ''clusterB'' = Some 5
   \<and> dlqAck ackedWorld ''clusterB'' = Some 5
   \<and> readerAck ackedWorld 1 = Some 5
   \<and> UpdateRemoteClusterInfo ''clusterB'' 3 7 ackedWorld = ackedWorld
   \<and> UpdateReplicatorDLQAckLevel ''clusterB'' 3 ackedWorld = (None, ackedWorld)
   \<and> UpdateRemoteReaderInfo 1 3 7 ackedWorld = (None, ackedWorld)
   \<and> readerAck (snd (UpdateRemoteReaderInfo 1 3 20 ackedWorld)) 1 = Some 5"
proof -
  have a: "state (ctx (acquiredWorld 1000)) = Active"
    and b: "notBelow (clusterAck (acquiredWorld 1000) ''clusterB'') (Some 5)"
    and c: "notBelow (dlqAck (acquiredWorld 1000) ''clusterB'') (Some 5)"
    and d: "fst (UpdateReplicatorDLQAckLevel ''clusterB'' 5 (acquiredWorld 1000)) = None"
    by (simp_all add: acquiredWorld_eval clusterAck_def dlqAck_def
        UpdateReplicatorDLQAckLevel_def errorByState_def persistFenced_def fencedWrite_def)
  have e: "state (ctx ackedWorld) = Active"
    and f: "remoteClusterInfo (ctx ackedWorld) ''clusterB'' = Some (5, 10)"
    and g: "remoteReaderInfo (ctx ackedWorld) 1 = Some (5, 10)"
    and h: "clusterAck ackedWorld ''clusterB'' = Some 5"
    and i: "dlqAck ackedWorld ''clusterB'' = Some 5"
    and j: "readerAck ackedWorld 1 = Some 5"
    by (simp_all add: ackedWorld_eval clusterAck_def dlqAck_def readerAck_def)
  from a b c d
    replication_acks_monotone [of "acquiredWorld 1000" "''clusterB''" 5 10 5 10 20 1]
  have first: "clusterAck (UpdateRemoteClusterInfo ''clusterB'' 3 20
      (UpdateRemoteClusterInfo ''clusterB'' 5 10 (acquiredWorld 1000))) ''clusterB'' = Some 5
   \<and> dlqAck (snd (UpdateReplicatorDLQAckLevel ''clusterB'' 5 (acquiredWorld 1000))) ''clusterB'' = Some 5
   \<and> UpdateReplicatorDLQAckLevel ''clusterB'' 3
        (snd (UpdateReplicatorDLQAckLevel ''clusterB'' 5 (acquiredWorld 1000))) =
       (None, snd (UpdateReplicatorDLQAckLevel ''clusterB'' 5 (acquiredWorld 1000)))"
    by simp
  from e f g h i j
    replication_acks_monotone [of ackedWorld "''clusterB''" 3 7 5 10 20 1]
  have stale: "UpdateRemoteClusterInfo ''clusterB'' 3 7 ackedWorld = ackedWorld
   \<and> UpdateReplicatorDLQAckLevel ''clusterB'' 3 ackedWorld = (None, ackedWorld)
   \<and> UpdateRemoteReaderInfo 1 3 7 ackedWorld = (None, ackedWorld)"
    by simp
  from h j
    replication_acks_monotone [of ackedWorld "''clusterB''" 3 20 5 10 20 1]
  have level: "readerAck (snd (UpdateRemoteReaderInfo 1 3 20 ackedWorld)) 1 = Some 5"
    by simp
  from first stale level h i j show ?thesis by blast
qed

subsection \<open>SetQueueState and the persisted watermark\<close>















subsection \<open>The scenario of shard 7\<close>


















end
